theory Spec2Isabelle
  imports Main "HOL-Library.Word"
begin

unbundle bit_operations_syntax

section \<open>The anchor-chain contract State.sol\<close>

subsection \<open>Values and structs\<close>

type_synonym uint256 = "256 word"
type_synonym bytes32 = "256 word"
type_synonym bytes4 = "32 word"
type_synonym address = "160 word"

text \<open>
  Every revert of the contract is a value. \<open>Require\<close> carries the message of the failing
  \<^verbatim>\<open>require\<close>, \<open>RevertEmpty\<close> is the assembly's \<^verbatim>\<open>revert(0, 0)\<close>, \<open>Panic\<close> is the
  checked-arithmetic failure of Solidity 0.8, \<open>WhenNotPaused\<close> is the failing modifier of
  Pausable.sol.
\<close>

datatype error = Require string | RevertEmpty | Panic | WhenNotPaused

text \<open>
  Modelled from the spec: the struct declarations of Structures.sol are not part of the
  sources. \<open>Block\<close> has the fields the contract and the proposer route name (proposer,
  root, leafCount, blockNumberL2, previousBlockHash, frontierHash, transactionHashesRoot);
  the transactions root is the last slot, which is the slot \<^verbatim>\<open>proposeBlock\<close> compares
  with the computed root. \<open>Transaction\<close> has the fields of the tuple hashed in
  transaction.mjs, in that order, so that the transaction type is slot 2, the slot the
  assembly reads.
\<close>

record Block =
  leafCount :: uint256
  proposer :: address
  root :: bytes32
  blockNumberL2 :: uint256
  previousBlockHash :: bytes32
  frontierHash :: bytes32
  transactionHashesRoot :: bytes32

record Transaction =
  "value" :: uint256
  fee :: uint256
  transactionType :: uint256
  tokenType :: uint256
  historicRootBlockNumberL2 :: "uint256 list"
  tokenId :: bytes32
  ercAddress :: bytes32
  recipientAddress :: bytes32
  commitments :: "bytes32 list"
  nullifiers :: "bytes32 list"
  compressedSecrets :: "bytes32 list"
  "proof" :: "uint256 list"

record BlockData =
  blockHash :: bytes32
  time :: uint256

record LinkedAddress =
  thisAddress :: address
  previousAddress :: address
  nextAddress :: address
  url :: string

text \<open>The 32-byte slots of the ABI encoding of a block and of a transaction (static structs).\<close>

definition blockSlotsOf :: "Block \<Rightarrow> bytes32 list" where
  "blockSlotsOf b =
     [leafCount b, ucast (proposer b), root b, blockNumberL2 b, previousBlockHash b,
      frontierHash b, transactionHashesRoot b]"

definition transactionSlotsOf :: "Transaction \<Rightarrow> bytes32 list" where
  "transactionSlotsOf tx =
     [value tx, fee tx, transactionType tx, tokenType tx] @ historicRootBlockNumberL2 tx @
     [tokenId tx, ercAddress tx, recipientAddress tx] @ commitments tx @ nullifiers tx @
     compressedSecrets tx @ proof tx"

subsection \<open>The transactions hash tree\<close>

text \<open>
  \<^verbatim>\<open>getTreeHeight\<close>: the height starts at 1 and grows while \<^verbatim>\<open>exp(2, _height) < leaves\<close>.
  The argument is the length of a calldata array, which the ABI decoder keeps below
  \<open>2 ^ 64\<close>, so \<^verbatim>\<open>exp\<close> never wraps and the loop is the one on natural numbers.
\<close>

function getTreeHeightLoop :: "nat \<Rightarrow> nat \<Rightarrow> nat" where
  "getTreeHeightLoop leaves height =
     (if 2 ^ height < leaves then getTreeHeightLoop leaves (height + 1) else height)"
  by pat_completeness auto
termination
proof (relation "measure (\<lambda>(leaves, height). leaves - 2 ^ height)")
  show "wf (measure (\<lambda>(leaves :: nat, height :: nat). leaves - 2 ^ height))"
    by simp
next
  fix leaves height :: nat
  assume lt: "2 ^ height < leaves"
  have pos: "(0 :: nat) < 2 ^ height"
    by simp
  from lt pos have "leaves - 2 * 2 ^ height < leaves - 2 ^ height"
    by linarith
  then show "((leaves, height + 1), (leaves, height))
      \<in> measure (\<lambda>(leaves, height). leaves - 2 ^ height)"
    by simp
qed

declare getTreeHeightLoop.simps [simp del]

definition getTreeHeight :: "nat \<Rightarrow> nat" where
  "getTreeHeight leaves = getTreeHeightLoop leaves 1"

text \<open>
  The memory the assembly works on from \<^verbatim>\<open>transactionHashesPos\<close>, in 32-byte slots: slot
  \<open>k\<close> is the word at \<^verbatim>\<open>transactionHashesPos + 0x20 * k\<close>. The region lies above the free
  memory pointer and is all zero when the assembly starts. The slots below it, the two
  slots kept for the external call and the copy of the block, are not written from here.
\<close>

type_synonym memory = "nat \<Rightarrow> bytes32"

text \<open>
  The body of the inner loop of the root calculation: the word stored at slot \<open>j\<close> from
  the children \<open>left\<close> and \<open>right\<close>. The keccak256 of a memory range is a parameter
  of the model, a function of the list of slots in the range.
\<close>

definition nodeHash :: "(bytes32 list \<Rightarrow> bytes32) \<Rightarrow> bytes32 \<Rightarrow> bytes32 \<Rightarrow> bytes32" where
  "nodeHash keccak256 left right =
     (if left = 0 \<and> right = 0 then 0 else keccak256 [left, right])"

function rootLevel :: "(bytes32 list \<Rightarrow> bytes32) \<Rightarrow> nat \<Rightarrow> nat \<Rightarrow> memory \<Rightarrow> memory" where
  "rootLevel keccak256 i j mem =
     (if j < 2 ^ (i - 1)
      then rootLevel keccak256 i (j + 1)
             (mem(j := nodeHash keccak256 (mem (2 * j)) (mem (2 * j + 1))))
      else mem)"
  by pat_completeness auto
termination
  by (relation "measure (\<lambda>(keccak256, i, j, mem). 2 ^ (i - 1) - j)") auto

declare rootLevel.simps [simp del]

function rootLevels :: "(bytes32 list \<Rightarrow> bytes32) \<Rightarrow> nat \<Rightarrow> memory \<Rightarrow> memory" where
  "rootLevels keccak256 i mem =
     (if 0 < i then rootLevels keccak256 (i - 1) (rootLevel keccak256 i 0 mem) else mem)"
  by pat_completeness auto
termination
  by (relation "measure (\<lambda>(keccak256, i, mem). i)") auto

declare rootLevels.simps [simp del]

subsection \<open>The contract's state and its environment\<close>

text \<open>
  The constants of Config.sol, the slot of the state variable \<^verbatim>\<open>shieldAddress\<close> in the
  storage layout (Yul's \<^verbatim>\<open>shieldAddress.slot\<close>), and the two primitives of the chain:
  keccak256 over a list of slots, and a message call to another account.
  \<open>extcall a sig w\<close> is the first 32 bytes of the data returned by the account at \<open>a\<close>
  when called with the 36 bytes made of the selector \<open>sig\<close> and the word \<open>w\<close>, and
  \<open>None\<close> when no data comes back (no code at \<open>a\<close>, or a return without data).
  The packed encoding of the proposer and the block number, whose hash keys the fee book,
  is represented by the list of the two values.
\<close>

record Config =
  BLOCK_STAKE :: uint256
  TRANSACTIONS_PER_BLOCK :: uint256
  shieldAddress_slot :: nat
  keccak256 :: "bytes32 list \<Rightarrow> bytes32"
  extcall :: "address \<Rightarrow> bytes4 \<Rightarrow> bytes32 \<Rightarrow> bytes32 option"

text \<open>
  The message and block fields the functions read, and the state variables of the contract.
  Pausable.sol is not part of the sources: its modifier \<^verbatim>\<open>whenNotPaused\<close> is taken to
  revert exactly when the flag \<open>paused\<close> is set.
\<close>

record Msg =
  msg_sender :: address
  msg_value :: uint256
  block_timestamp :: uint256
  block_number :: uint256

record State =
  blockHashes :: "BlockData list"
  proposers :: "address \<Rightarrow> LinkedAddress"
  feeBook :: "bytes32 \<Rightarrow> uint256 \<times> uint256"
  currentProposer :: LinkedAddress
  proposerStartBlock :: uint256
  proposersAddress :: address
  challengesAddress :: address
  shieldAddress :: address
  paused :: bool

subsection \<open>proposeBlock\<close>

text \<open>The fee totals of the block, with the checked addition of Solidity 0.8.\<close>

definition checkedAdd :: "uint256 \<Rightarrow> uint256 \<Rightarrow> error + uint256" where
  "checkedAdd a b = (if unat a + unat b < 2 ^ 256 then Inr (a + b) else Inl Panic)"

fun feePayments :: "Transaction list \<Rightarrow> uint256 \<Rightarrow> uint256 \<Rightarrow> error + uint256 \<times> uint256" where
  "feePayments [] feePaymentsEth feePaymentsMatic = Inr (feePaymentsEth, feePaymentsMatic)"
| "feePayments (tx # ts) feePaymentsEth feePaymentsMatic =
     (if transactionType tx = 0
      then (case checkedAdd feePaymentsEth (fee tx) of
              Inl e \<Rightarrow> Inl e
            | Inr eth \<Rightarrow> feePayments ts eth feePaymentsMatic)
      else (case checkedAdd feePaymentsMatic (fee tx) of
              Inl e \<Rightarrow> Inl e
            | Inr matic \<Rightarrow> feePayments ts feePaymentsEth matic))"

text \<open>
  \<^verbatim>\<open>bytes4(keccak256('getTransactionEscrowed(bytes32)'))\<close>, a constant of the compiled
  contract.
\<close>

definition checkTxEscrowedSignature :: bytes4 where
  "checkTxEscrowedSignature = 0x16ab9308"

text \<open>
  The escrow check of a deposit. The two \<^verbatim>\<open>mstore\<close> leave in the 32 bytes at \<open>x\<close> the
  selector followed by the first 28 bytes of the transaction hash; the \<^verbatim>\<open>call\<close> goes to
  the account whose address is the second argument of \<^verbatim>\<open>call\<close>, which the source writes
  as \<^verbatim>\<open>shieldAddress.slot\<close>, and copies what it returns over \<open>x\<close>; the status of the call
  is popped. \<open>escrowWord\<close> is the word \<^verbatim>\<open>mload(x)\<close> reads afterwards.
\<close>

definition scratchWord :: "bytes32 \<Rightarrow> bytes32" where
  "scratchWord h = push_bit 224 (ucast checkTxEscrowedSignature) OR drop_bit 32 h"

definition escrowWord :: "Config \<Rightarrow> bytes32 \<Rightarrow> bytes32" where
  "escrowWord c h =
     (case extcall c (of_nat (shieldAddress_slot c)) checkTxEscrowedSignature h of
        None \<Rightarrow> scratchWord h
      | Some w \<Rightarrow> w)"

text \<open>
  \<^verbatim>\<open>calldatacopy\<close> of a list of slots to the memory from slot \<open>pos\<close>, and the list of
  the \<open>n\<close> slots from \<open>pos\<close> that a \<^verbatim>\<open>keccak256\<close> of that range hashes.
\<close>

fun storeSlots :: "memory \<Rightarrow> nat \<Rightarrow> bytes32 list \<Rightarrow> memory" where
  "storeSlots mem pos [] = mem"
| "storeSlots mem pos (w # ws) = storeSlots (mem(pos := w)) (pos + 1) ws"

definition loadSlots :: "memory \<Rightarrow> nat \<Rightarrow> nat \<Rightarrow> bytes32 list" where
  "loadSlots mem pos n = map mem [pos ..< pos + n]"

text \<open>
  The loop over the transactions: transaction \<open>i\<close> is copied to \<^verbatim>\<open>transactionPos\<close> (the
  slot after the hashes), the keccak256 of the copy is stored at slot \<open>i\<close> of the hashes,
  and a transaction whose type (slot 2 of the transaction) is zero, a deposit, goes through
  the escrow check. The number of slots copied and hashed, \<^verbatim>\<open>transactionSlots\<close>, is the
  number of slots of the transaction struct.
\<close>

fun hashTransactions ::
  "Config \<Rightarrow> nat \<Rightarrow> Transaction list \<Rightarrow> nat \<Rightarrow> memory \<Rightarrow> error + memory" where
  "hashTransactions c transactionPos [] i mem = Inr mem"
| "hashTransactions c transactionPos (tx # ts) i mem =
     (let copied = storeSlots mem transactionPos (transactionSlotsOf tx);
          mem' = copied(i := keccak256 c
                    (loadSlots copied transactionPos (length (transactionSlotsOf tx))))
      in if transactionType tx = 0 \<and> escrowWord c (mem' i) = 0 then Inl RevertEmpty
         else hashTransactions c transactionPos ts (i + 1) mem')"

definition proposeBlock :: "Config \<Rightarrow> Msg \<Rightarrow> Block \<Rightarrow> Transaction list \<Rightarrow> State \<Rightarrow> error + State" where
  "proposeBlock c m b t s =
     (if msg_sender m \<noteq> thisAddress (currentProposer s)
      then Inl (Require ''Only the current proposer can call this.'')
      else if paused s then Inl WhenNotPaused
      else if unat (blockNumberL2 b) \<noteq> length (blockHashes s)
      then Inl (Require ''The block is out of order'')
      else if blockHashes s \<noteq> [] \<and> previousBlockHash b \<noteq> blockHash (last (blockHashes s))
      then Inl (Require ''The block is flawed or out of order'')
      else if \<not> BLOCK_STAKE c \<le> msg_value m
      then Inl (Require ''The stake payment is incorrect'')
      else if proposer b \<noteq> msg_sender m
      then Inl (Require ''The proposer address is not the sender'')
      else if \<not> length t \<le> unat (TRANSACTIONS_PER_BLOCK c)
      then Inl (Require ''The block has too many transactions'')
      else case feePayments t 0 0 of
        Inl e \<Rightarrow> Inl e
      | Inr fees \<Rightarrow>
         (case hashTransactions c (2 ^ getTreeHeight (length t)) t 0 (\<lambda>k. 0) of
            Inl e \<Rightarrow> Inl e
          | Inr mem \<Rightarrow>
             if transactionHashesRoot b
                  \<noteq> rootLevels (keccak256 c) (getTreeHeight (length t)) mem 0
             then Inl RevertEmpty
             else Inr (s\<lparr>feeBook := (feeBook s)
                             (keccak256 c [ucast (proposer b), blockNumberL2 b] := fees),
                          blockHashes := blockHashes s @
                             [\<lparr>blockHash = keccak256 c (blockSlotsOf b),
                               time = block_timestamp m\<rparr>]\<rparr>)))"

subsection \<open>removeProposer\<close>

text \<open>
  \<^verbatim>\<open>delete proposers[proposer]\<close> resets the record to the zero value of its type. The two
  assignments that follow read the mapping as the statement before left it.
\<close>

definition zeroLinkedAddress :: LinkedAddress where
  "zeroLinkedAddress = \<lparr>thisAddress = 0, previousAddress = 0, nextAddress = 0, url = []\<rparr>"

definition onlyRegistered :: "Msg \<Rightarrow> State \<Rightarrow> bool" where
  "onlyRegistered m s \<longleftrightarrow>
     msg_sender m = proposersAddress s \<or> msg_sender m = challengesAddress s \<or>
     msg_sender m = shieldAddress s"

definition removeProposer :: "Msg \<Rightarrow> address \<Rightarrow> State \<Rightarrow> error + State" where
  "removeProposer m proposerAddr s =
     (if \<not> onlyRegistered m s
      then Inl (Require ''This address is not authorised to call this function'')
      else
        let previousAddr = previousAddress (proposers s proposerAddr);
            nextAddr = nextAddress (proposers s proposerAddr);
            p1 = (proposers s)(proposerAddr := zeroLinkedAddress);
            p2 = p1(previousAddr := (p1 previousAddr)
                      \<lparr>nextAddress := thisAddress (p1 nextAddr)\<rparr>);
            p3 = p2(nextAddr := (p2 nextAddr)
                      \<lparr>previousAddress := thisAddress (p2 previousAddr)\<rparr>)
        in Inr (s\<lparr>proposers := p3,
                   proposerStartBlock := block_number m,
                   currentProposer := p3 nextAddr\<rparr>))"

subsection \<open>The tree and the chain as the specification describes them\<close>

text \<open>
  The specification's transactions hash tree, to be compared with the loops of
  \<^verbatim>\<open>proposeBlock\<close>: a perfect binary tree over the leaf slots, where the node \<open>k\<close> of
  height \<open>i\<close> covers the leaves \<open>k * 2 ^ i\<close> to \<open>(k + 1) * 2 ^ i - 1\<close> and an empty
  subtree is the zero constant.
\<close>

fun merkleNode :: "(bytes32 list \<Rightarrow> bytes32) \<Rightarrow> nat \<Rightarrow> memory \<Rightarrow> nat \<Rightarrow> bytes32" where
  "merkleNode K 0 leaves k = leaves k"
| "merkleNode K (Suc i) leaves k =
     nodeHash K (merkleNode K i leaves (2 * k)) (merkleNode K i leaves (2 * k + 1))"

text \<open>The leaf slots of a transaction list: the hashes of the transactions, then zeros.\<close>

definition leafSlots :: "Config \<Rightarrow> Transaction list \<Rightarrow> memory" where
  "leafSlots c t k = (if k < length t then keccak256 c (transactionSlotsOf (t ! k)) else 0)"

definition transactionsRoot :: "Config \<Rightarrow> Transaction list \<Rightarrow> bytes32" where
  "transactionsRoot c t = merkleNode (keccak256 c) (getTreeHeight (length t)) (leafSlots c t) 0"

text \<open>
  A sequence of calls to \<^verbatim>\<open>proposeBlock\<close>: a call that reverts leaves the state as it
  was, a call that returns adds its block to the list of accepted blocks.
\<close>

fun proposeBlocks ::
  "Config \<Rightarrow> (Msg \<times> Block \<times> Transaction list) list \<Rightarrow> State \<Rightarrow> Block list \<Rightarrow> State \<times> Block list" where
  "proposeBlocks c [] s accepted = (s, accepted)"
| "proposeBlocks c ((m, b, t) # calls) s accepted =
     (case proposeBlock c m b t s of
        Inl e \<Rightarrow> proposeBlocks c calls s accepted
      | Inr s' \<Rightarrow> proposeBlocks c calls s' (accepted @ [b]))"

text \<open>
  The stored hashes are those of the accepted blocks, the block numbers count from zero
  without a gap, and every block names the hash of the block before it.
\<close>

definition chained :: "Config \<Rightarrow> Block list \<Rightarrow> BlockData list \<Rightarrow> bool" where
  "chained c accepted stored \<longleftrightarrow>
     map blockHash stored = map (\<lambda>b. keccak256 c (blockSlotsOf b)) accepted \<and>
     (\<forall>i < length accepted.
        unat (blockNumberL2 (accepted ! i)) = i \<and>
        (0 < i \<longrightarrow>
           previousBlockHash (accepted ! i) = keccak256 c (blockSlotsOf (accepted ! (i - 1)))))"

text \<open>
  The proposers registered in the set \<open>live\<close> form doubly linked rings: every record
  carries its own address, and its neighbours are live and point back at it.
\<close>

definition linked :: "address set \<Rightarrow> (address \<Rightarrow> LinkedAddress) \<Rightarrow> bool" where
  "linked live ps \<longleftrightarrow>
     (\<forall>a \<in> live.
        thisAddress (ps a) = a \<and>
        nextAddress (ps a) \<in> live \<and> previousAddress (ps a) \<in> live \<and>
        previousAddress (ps (nextAddress (ps a))) = a \<and>
        nextAddress (ps (previousAddress (ps a))) = a)"

subsection \<open>Example values\<close>

text \<open>A stand-in for keccak256 in the examples.\<close>

definition sumHash :: "bytes32 list \<Rightarrow> bytes32" where
  "sumHash ws = 1 + sum_list ws"

text \<open>
  In the example chain the shield contract is the account at \<open>0x5B\<close>; it has no transaction
  recorded as escrowed, so \<^verbatim>\<open>getTransactionEscrowed\<close> returns false (the zero word) for
  every hash. No other account has code.
\<close>

definition exampleConfig :: Config where
  "exampleConfig =
     \<lparr>BLOCK_STAKE = 1, TRANSACTIONS_PER_BLOCK = 32, shieldAddress_slot = 163,
      keccak256 = sumHash,
      extcall = (\<lambda>a sig w. if a = 0x5B \<and> sig = checkTxEscrowedSignature then Some 0 else None)\<rparr>"

definition exampleMsg :: Msg where
  "exampleMsg = \<lparr>msg_sender = 1, msg_value = 1, block_timestamp = 1000, block_number = 7\<rparr>"

definition exampleProposer :: "address \<Rightarrow> address \<Rightarrow> address \<Rightarrow> LinkedAddress" where
  "exampleProposer this prev nxt =
     \<lparr>thisAddress = this, previousAddress = prev, nextAddress = nxt, url = ''http://proposer''\<rparr>"

definition exampleState :: State where
  "exampleState =
     \<lparr>blockHashes = [],
      proposers = (\<lambda>a. zeroLinkedAddress)(1 := exampleProposer 1 1 1),
      feeBook = (\<lambda>k. (0, 0)),
      currentProposer = exampleProposer 1 1 1,
      proposerStartBlock = 0,
      proposersAddress = 0xA1, challengesAddress = 0xA2, shieldAddress = 0x5B,
      paused = False\<rparr>"

definition threeProposers :: State where
  "threeProposers =
     exampleState\<lparr>proposers := (\<lambda>a. zeroLinkedAddress)
        (1 := exampleProposer 1 3 2, 2 := exampleProposer 2 1 3, 3 := exampleProposer 3 2 1),
        currentProposer := exampleProposer 1 3 2\<rparr>"

definition exampleBlock :: "uint256 \<Rightarrow> bytes32 \<Rightarrow> bytes32 \<Rightarrow> Block" where
  "exampleBlock n prev txRoot =
     \<lparr>leafCount = 0, proposer = 1, root = 0, blockNumberL2 = n, previousBlockHash = prev,
      frontierHash = 0, transactionHashesRoot = txRoot\<rparr>"

definition exampleTransaction :: "uint256 \<Rightarrow> uint256 \<Rightarrow> Transaction" where
  "exampleTransaction type n =
     \<lparr>value = 0, fee = n, transactionType = type, tokenType = 0,
      historicRootBlockNumberL2 = [0, 0], tokenId = 0, ercAddress = 0, recipientAddress = 0,
      commitments = [n, 0], nullifiers = [0, 0], compressedSecrets = [0, 0],
      proof = [0, 0, 0, 0]\<rparr>"

section \<open>The Transaction class (transaction.mjs)\<close>

subsection \<open>JavaScript values, errors and the libraries used\<close>

datatype val = Undefined | Null | Num int | Str string

fun truthy :: "val \<Rightarrow> bool" where
  "truthy Undefined = False"
| "truthy Null = False"
| "truthy (Num n) = (n \<noteq> 0)"
| "truthy (Str s) = (s \<noteq> [])"

text \<open>The expression \<^verbatim>\<open>v || 0\<close>.\<close>

definition orZero :: "val \<Rightarrow> val" where
  "orZero v = (if truthy v then v else Num 0)"

text \<open>
  What the JavaScript code throws: a \<^verbatim>\<open>TransactionError\<close> with its message and code, an
  \<^verbatim>\<open>Error\<close> with its message, or an exception raised inside a library or a service
  (\<open>Thrown\<close>).
\<close>

datatype jserror = TransactionError string int | Error string | Thrown

text \<open>An entry of the array handed to the ABI encoder: a scalar or an array of scalars.\<close>

datatype item = Scalar val | Array "val list"

text \<open>
  The library functions the class calls and the sources do not contain:
  \<^verbatim>\<open>Proof.flatProof\<close>, general-number's conversion of one value to a 32-byte hex string,
  \<^verbatim>\<open>compressProof\<close>, web3's \<^verbatim>\<open>encodeParameters\<close> for the transaction signature and
  \<^verbatim>\<open>soliditySha3\<close>. \<open>None\<close> is an exception.
\<close>

record Lib =
  flatProof :: "val \<Rightarrow> val list option"
  hex32 :: "val \<Rightarrow> string option"
  compressProof :: "val list \<Rightarrow> val list option"
  encodeParameters :: "item list \<Rightarrow> string option"
  soliditySha3 :: "string \<Rightarrow> string"

text \<open>
  A transaction object: the twelve fields of the preimage, the transaction hash, and the
  properties the optimist adds (\<^verbatim>\<open>mempool\<close> is absent until it is assigned).
\<close>

record TransactionObject =
  "value" :: val
  fee :: val
  transactionType :: val
  tokenType :: val
  historicRootBlockNumberL2 :: "val list"
  tokenId :: val
  ercAddress :: val
  recipientAddress :: val
  commitments :: "val list"
  nullifiers :: "val list"
  compressedSecrets :: "val list"
  "proof" :: "val list"
  transactionHash :: val
  mempool :: "bool option"
  blockNumber :: val
  transactionHashL1 :: val

text \<open>
  The argument of the constructor. A commitment or nullifier object is represented by its
  \<^verbatim>\<open>hash\<close> property, the only one the constructor reads; \<open>None\<close> is \<^verbatim>\<open>undefined\<close>.
\<close>

record Args =
  fee :: val
  historicRootBlockNumberL2 :: "val list option"
  transactionType :: val
  tokenType :: val
  tokenId :: val
  "value" :: val
  ercAddress :: val
  recipientAddress :: val
  commitments :: "val list option"
  nullifiers :: "val list option"
  compressedSecrets :: "val list option"
  "proof" :: "val option"
  numberNullifiers :: nat
  numberCommitments :: nat

definition TOKEN_TYPES :: "val \<Rightarrow> val" where
  "TOKEN_TYPES k =
     (if k = Str ''ERC20'' then Num 0
      else if k = Str ''ERC721'' then Num 1
      else if k = Str ''ERC1155'' then Num 2
      else Undefined)"

definition arrayEquality :: "val list \<Rightarrow> val list \<Rightarrow> bool" where
  "arrayEquality as bs =
     (if length as = length bs then list_all (\<lambda>a. a \<in> set bs) as else False)"

subsection \<open>keccak, the constructor and checkHash\<close>

definition keccak :: "Lib \<Rightarrow> TransactionObject \<Rightarrow> jserror + val" where
  "keccak L preimage =
     (case (if arrayEquality (TransactionObject.proof preimage)
                 [Num 0, Num 0, Num 0, Num 0, Num 0, Num 0, Num 0, Num 0]
            then Some [Num 0, Num 0, Num 0, Num 0]
            else compressProof L (TransactionObject.proof preimage)) of
        None \<Rightarrow> Inl Thrown
      | Some proof' \<Rightarrow>
         (case encodeParameters L
                 [Scalar (TransactionObject.value preimage),
                  Scalar (TransactionObject.fee preimage),
                  Scalar (TransactionObject.transactionType preimage),
                  Scalar (TransactionObject.tokenType preimage),
                  Array (TransactionObject.historicRootBlockNumberL2 preimage),
                  Scalar (TransactionObject.tokenId preimage),
                  Scalar (TransactionObject.ercAddress preimage),
                  Scalar (TransactionObject.recipientAddress preimage),
                  Array (TransactionObject.commitments preimage),
                  Array (TransactionObject.nullifiers preimage),
                  Array (TransactionObject.compressedSecrets preimage),
                  Array proof'] of
            None \<Rightarrow> Inl Thrown
          | Some encodedTransaction \<Rightarrow> Inr (Str (soliditySha3 L encodedTransaction))))"

text \<open>
  Modelled from the spec: \<^verbatim>\<open>utils.padArray\<close> of common-files is not part of the sources.
  Absent slots are filled with the padding value up to the arity \<open>n\<close>; an array that is
  \<^verbatim>\<open>undefined\<close> has every slot absent.
\<close>

definition padArray :: "'a list option \<Rightarrow> 'a \<Rightarrow> nat \<Rightarrow> 'a list" where
  "padArray A padWith n =
     (case A of
        None \<Rightarrow> replicate n padWith
      | Some xs \<Rightarrow> xs @ replicate (n - length xs) padWith)"

text \<open>\<^verbatim>\<open>generalise(...).all.hex(32)\<close>: every value of the object becomes a hex string.\<close>

definition hex :: "Lib \<Rightarrow> val \<Rightarrow> val option" where
  "hex L v = map_option Str (hex32 L v)"

fun hexAll :: "Lib \<Rightarrow> val list \<Rightarrow> val list option" where
  "hexAll L [] = Some []"
| "hexAll L (v # vs) =
     (case hex L v of
        None \<Rightarrow> None
      | Some h \<Rightarrow> (case hexAll L vs of None \<Rightarrow> None | Some hs \<Rightarrow> Some (h # hs)))"

definition generalise_all_hex :: "Lib \<Rightarrow> TransactionObject \<Rightarrow> TransactionObject option" where
  "generalise_all_hex L p =
     Option.bind (hex L (TransactionObject.value p)) (\<lambda>value'.
     Option.bind (hex L (TransactionObject.fee p)) (\<lambda>fee'.
     Option.bind (hex L (TransactionObject.transactionType p)) (\<lambda>transactionType'.
     Option.bind (hex L (TransactionObject.tokenType p)) (\<lambda>tokenType'.
     Option.bind (hexAll L (TransactionObject.historicRootBlockNumberL2 p)) (\<lambda>historicRoot'.
     Option.bind (hex L (TransactionObject.tokenId p)) (\<lambda>tokenId'.
     Option.bind (hex L (TransactionObject.ercAddress p)) (\<lambda>ercAddress'.
     Option.bind (hex L (TransactionObject.recipientAddress p)) (\<lambda>recipientAddress'.
     Option.bind (hexAll L (TransactionObject.commitments p)) (\<lambda>commitments'.
     Option.bind (hexAll L (TransactionObject.nullifiers p)) (\<lambda>nullifiers'.
     Option.bind (hexAll L (TransactionObject.compressedSecrets p)) (\<lambda>compressedSecrets'.
     Option.bind (hexAll L (TransactionObject.proof p)) (\<lambda>proof'.
       Some (p\<lparr>TransactionObject.value := value',
                TransactionObject.fee := fee',
                TransactionObject.transactionType := transactionType',
                TransactionObject.tokenType := tokenType',
                TransactionObject.historicRootBlockNumberL2 := historicRoot',
                TransactionObject.tokenId := tokenId',
                TransactionObject.ercAddress := ercAddress',
                TransactionObject.recipientAddress := recipientAddress',
                TransactionObject.commitments := commitments',
                TransactionObject.nullifiers := nullifiers',
                TransactionObject.compressedSecrets := compressedSecrets',
                TransactionObject.proof := proof'\<rparr>)))))))))))))"

text \<open>
  The object literal the constructor generalises. The properties the constructor does not
  set are absent.
\<close>

definition preimageOf :: "Args \<Rightarrow> val list \<Rightarrow> TransactionObject" where
  "preimageOf a flatProof' =
     \<lparr>TransactionObject.value = orZero (Args.value a),
      TransactionObject.fee = orZero (Args.fee a),
      TransactionObject.transactionType = orZero (Args.transactionType a),
      TransactionObject.tokenType = orZero (TOKEN_TYPES (Args.tokenType a)),
      TransactionObject.historicRootBlockNumberL2 =
        padArray (Args.historicRootBlockNumberL2 a) (Num 0) (numberNullifiers a),
      TransactionObject.tokenId = orZero (Args.tokenId a),
      TransactionObject.ercAddress = orZero (Args.ercAddress a),
      TransactionObject.recipientAddress = orZero (Args.recipientAddress a),
      TransactionObject.commitments =
        padArray (Args.commitments a) (Num 0) (numberCommitments a),
      TransactionObject.nullifiers =
        padArray (Args.nullifiers a) (Num 0) (numberNullifiers a),
      TransactionObject.compressedSecrets =
        (case Args.compressedSecrets a of
           None \<Rightarrow> [Num 0, Num 0]
         | Some cs \<Rightarrow> if cs = [] then [Num 0, Num 0] else cs),
      TransactionObject.proof = flatProof',
      transactionHash = Undefined,
      mempool = None,
      blockNumber = Undefined,
      transactionHashL1 = Undefined\<rparr>"

definition Transaction_constructor :: "Lib \<Rightarrow> Args \<Rightarrow> jserror + TransactionObject" where
  "Transaction_constructor L a =
     (case (case Args.proof a of
              None \<Rightarrow> Some [Num 0, Num 0, Num 0, Num 0, Num 0, Num 0, Num 0, Num 0]
            | Some p \<Rightarrow> flatProof L p) of
        None \<Rightarrow> Inl Thrown
      | Some flatProof' \<Rightarrow>
         if (Args.transactionType a = Num 0 \<or> Args.transactionType a = Num 2) \<and>
            TOKEN_TYPES (Args.tokenType a) = Undefined
         then Inl (Error ''Unrecognized token type'')
         else (case generalise_all_hex L (preimageOf a flatProof') of
                 None \<Rightarrow> Inl Thrown
               | Some preimage \<Rightarrow>
                  (case keccak L preimage of
                     Inl e \<Rightarrow> Inl e
                   | Inr h \<Rightarrow> Inr (preimage\<lparr>transactionHash := h\<rparr>))))"

definition checkHash :: "Lib \<Rightarrow> TransactionObject \<Rightarrow> jserror + bool" where
  "checkHash L transaction =
     (case keccak L transaction of
        Inl e \<Rightarrow> Inl e
      | Inr h \<Rightarrow> Inr (h = transactionHash transaction))"

section \<open>The transaction-submitted event handler of the optimist\<close>

subsection \<open>The store\<close>

text \<open>
  Modelled from the spec: services/database.mjs is not part of the sources. The persistent
  store keeps blocks and transactions keyed by hash: a block lists the hashes of its
  transactions, \<^verbatim>\<open>getBlockByTransactionHash\<close> returns the stored blocks that list a hash,
  \<^verbatim>\<open>getTransactionByTransactionHash\<close> the stored transaction with that hash (or null),
  and \<^verbatim>\<open>saveTransaction\<close> persists a transaction under its hash.
\<close>

record BlockObject =
  transactionHashes :: "val list"

record Db =
  blocks :: "BlockObject list"
  transactions :: "val \<Rightarrow> TransactionObject option"

definition getBlockByTransactionHash :: "Db \<Rightarrow> val \<Rightarrow> BlockObject list" where
  "getBlockByTransactionHash db h =
     filter (\<lambda>block. h \<in> set (transactionHashes block)) (blocks db)"

definition getTransactionByTransactionHash :: "Db \<Rightarrow> val \<Rightarrow> TransactionObject option" where
  "getTransactionByTransactionHash db h = transactions db h"

definition saveTransaction :: "TransactionObject \<Rightarrow> Db \<Rightarrow> Db" where
  "saveTransaction transaction db =
     db\<lparr>transactions := (transactions db)(transactionHash transaction := Some transaction)\<rparr>"

subsection \<open>checkAlreadyInBlock and submitTransaction\<close>

text \<open>
  \<^verbatim>\<open>storedTransaction?.blockNumber\<close> is \<^verbatim>\<open>undefined\<close> when no transaction is stored under
  the hash; the condition is the truthiness of the block number.
\<close>

definition checkAlreadyInBlock :: "Db \<Rightarrow> TransactionObject \<Rightarrow> jserror + TransactionObject" where
  "checkAlreadyInBlock db transaction =
     (case getBlockByTransactionHash db (transactionHash transaction) of
        [] \<Rightarrow> Inr transaction
      | block # rest \<Rightarrow>
         if truthy (case getTransactionByTransactionHash db (transactionHash transaction) of
                      None \<Rightarrow> Undefined
                    | Some storedTransaction \<Rightarrow> blockNumber storedTransaction)
         then Inl (TransactionError ''This transaction has been processed previously'' 6)
         else Inr (transaction\<lparr>mempool := Some False\<rparr>))"

text \<open>
  \<^verbatim>\<open>checkTransaction\<close> (services/transaction-checker.mjs) is a parameter: it reads the
  store and returns the error it throws, if any. The handler catches every error and logs
  it; the first component of the result is the error caught, \<open>None\<close> when the
  transaction went through.
\<close>

definition submitTransaction ::
  "(TransactionObject \<Rightarrow> Db \<Rightarrow> jserror option) \<Rightarrow> TransactionObject \<Rightarrow> bool \<Rightarrow> Db
     \<Rightarrow> jserror option \<times> Db" where
  "submitTransaction checkTransaction transaction0 fromBlockProposer db =
     (case checkAlreadyInBlock db transaction0 of
        Inl err \<Rightarrow> (Some err, db)
      | Inr transaction \<Rightarrow>
         let db1 = (if fromBlockProposer then saveTransaction transaction db else db) in
         (case checkTransaction transaction db1 of
            Some err \<Rightarrow> (Some err, db1)
          | None \<Rightarrow>
             (None, if \<not> fromBlockProposer then saveTransaction transaction db1 else db1)))"

subsection \<open>transactionSubmittedEventHandler\<close>

text \<open>
  The parameters of an event: \<^verbatim>\<open>offchain\<close> (false when absent), \<^verbatim>\<open>fromBlockProposer\<close>
  (absent unless the sender of the event set it) and the other properties, \<open>data\<close>. For
  an event of the chain \<^verbatim>\<open>getTransactionSubmittedCalldata\<close> (a parameter, \<open>None\<close> when it
  throws) decodes the transaction from the calldata.
\<close>

record EventParams =
  offchain :: "bool option"
  fromBlockProposer :: "bool option"
  data :: TransactionObject

text \<open>
  What the handler did: it threw, it handed the transaction to a transaction worker (whose
  code is another process, and whose failure to answer is not part of the model) with the
  flag \<^verbatim>\<open>fromBlockProposer === true\<close>, or it ran \<^verbatim>\<open>submitTransaction\<close> on the main
  thread.
\<close>

datatype outcome = Threw jserror | SentToWorker TransactionObject bool | Submitted "jserror option"

definition transactionSubmittedEventHandler ::
  "(TransactionObject \<Rightarrow> Db \<Rightarrow> jserror option) \<Rightarrow> (TransactionObject \<Rightarrow> TransactionObject option)
     \<Rightarrow> bool \<Rightarrow> EventParams \<Rightarrow> Db \<Rightarrow> outcome \<times> Db" where
  "transactionSubmittedEventHandler checkTransaction getTransactionSubmittedCalldata
       workersEnabled eventParams db =
     (case (if offchain eventParams = Some True
            then Some ((data eventParams)
                         \<lparr>blockNumber := Str ''offchain'', transactionHashL1 := Str ''offchain''\<rparr>)
            else map_option
                   (\<lambda>transaction. transaction
                         \<lparr>blockNumber := blockNumber (data eventParams),
                          transactionHashL1 := transactionHash (data eventParams)\<rparr>)
                   (getTransactionSubmittedCalldata (data eventParams))) of
        None \<Rightarrow> (Threw Thrown, db)
      | Some transaction \<Rightarrow>
         if workersEnabled
         then (SentToWorker transaction (fromBlockProposer eventParams = Some True), db)
         else (case submitTransaction checkTransaction transaction
                      (fromBlockProposer eventParams = Some True) db of
                 (caught, db') \<Rightarrow> (Submitted caught, db')))"

text \<open>
  Modelled from the spec: services/transaction-checker.mjs is not part of the sources.
  Validation starts by recomputing the transaction hash and rejects on a mismatch (the
  spec gives neither the message nor the code of the error); the structural checks that
  follow are the parameter \<open>checks\<close>.
\<close>

definition checkTransaction ::
  "Lib \<Rightarrow> (TransactionObject \<Rightarrow> Db \<Rightarrow> jserror option) \<Rightarrow> TransactionObject \<Rightarrow> Db
     \<Rightarrow> jserror option" where
  "checkTransaction L checks transaction db =
     (case checkHash L transaction of
        Inl e \<Rightarrow> Some e
      | Inr ok \<Rightarrow>
         if ok then checks transaction db
         else Some (TransactionError ''The transaction hash did not match'' 0))"

section \<open>Withdraw (client)\<close>

subsection \<open>The commitment store\<close>

text \<open>
  Modelled from the spec: commitment-storage.mjs is not part of the sources. A commitment
  is available, pending or nullified. \<^verbatim>\<open>findUsableCommitmentsMutex\<close> (the spec's reserve)
  selects a commitment that satisfies the predicate and is not reserved, and marks it
  pending; \<^verbatim>\<open>markNullified\<close> (confirmSpent) makes it nullified with a back-reference to
  the spending transaction; \<^verbatim>\<open>clearPending\<close> (release) makes it available again.
\<close>

datatype status = Available | Pending | Nullified val

record Commitment =
  hash :: val
  compressedPkd :: val
  ercAddress :: val
  tokenId :: val
  "value" :: val
  status :: status

definition findUsableCommitmentsMutex ::
  "val \<Rightarrow> val \<Rightarrow> val \<Rightarrow> val \<Rightarrow> bool \<Rightarrow> Commitment list \<Rightarrow> (Commitment \<times> Commitment list) option" where
  "findUsableCommitmentsMutex pkd erc tid v onlyOne store =
     (case find (\<lambda>c. compressedPkd c = pkd \<and> Commitment.ercAddress c = erc \<and>
                      Commitment.tokenId c = tid \<and> Commitment.value c = v \<and>
                      status c = Available) store of
        None \<Rightarrow> None
      | Some c \<Rightarrow> Some (c, map (\<lambda>d. if hash d = hash c then d\<lparr>status := Pending\<rparr> else d) store))"

definition markNullified :: "Commitment \<Rightarrow> TransactionObject \<Rightarrow> Commitment list \<Rightarrow> Commitment list" where
  "markNullified c transaction store =
     map (\<lambda>d. if hash d = hash c then d\<lparr>status := Nullified (transactionHash transaction)\<rparr> else d)
       store"

definition clearPending :: "Commitment \<Rightarrow> Commitment list \<Rightarrow> Commitment list" where
  "clearPending c store =
     map (\<lambda>d. if hash d = hash c then d\<lparr>status := Available\<rparr> else d) store"

subsection \<open>withdraw\<close>

text \<open>
  The services \<^verbatim>\<open>withdraw\<close> awaits and the sources do not contain; \<open>None\<close> is an
  exception. \<open>newTransaction\<close> stands for the nullifier, the public inputs, the witness
  and the \<^verbatim>\<open>new Transaction\<close> built from them, \<open>encodeABI\<close> for
  \<^verbatim>\<open>submitTransaction(...).encodeABI()\<close> on the shield contract instance.
\<close>

record WithdrawParams =
  ercAddress :: val
  tokenId :: val
  "value" :: val
  recipientAddress :: val
  nsk :: val
  ask :: val
  fee :: val
  tokenType :: val

record Services =
  calculateIvkPkdfromAskNsk :: "val \<Rightarrow> val \<Rightarrow> val option"
  getSiblingInfo :: "Commitment \<Rightarrow> val option"
  getContractInstance :: "unit option"
  newTransaction :: "WithdrawParams \<Rightarrow> Commitment \<Rightarrow> val \<Rightarrow> TransactionObject option"
  encodeABI :: "TransactionObject \<Rightarrow> val option"

definition withdraw ::
  "Services \<Rightarrow> WithdrawParams \<Rightarrow> Commitment list
     \<Rightarrow> (jserror + val \<times> TransactionObject) \<times> Commitment list" where
  "withdraw E withdrawParams store =
     (case calculateIvkPkdfromAskNsk E (ask withdrawParams) (nsk withdrawParams) of
        None \<Rightarrow> (Inl Thrown, store)
      | Some pkd \<Rightarrow>
         (case findUsableCommitmentsMutex pkd (WithdrawParams.ercAddress withdrawParams)
                 (WithdrawParams.tokenId withdrawParams) (WithdrawParams.value withdrawParams)
                 True store of
            None \<Rightarrow> (Inl (Error ''No suitable commitments were found''), store)
          | Some (oldCommitment, store1) \<Rightarrow>
             (case getSiblingInfo E oldCommitment of
                None \<Rightarrow> (Inl Thrown, store1)
              | Some commitmentTreeInfo \<Rightarrow>
                 (case getContractInstance E of
                    None \<Rightarrow> (Inl Thrown, store1)
                  | Some shieldContractInstance \<Rightarrow>
                     (case newTransaction E withdrawParams oldCommitment commitmentTreeInfo of
                        None \<Rightarrow> (Inl Thrown, store1)
                      | Some optimisticWithdrawTransaction \<Rightarrow>
                         (case encodeABI E optimisticWithdrawTransaction of
                            None \<Rightarrow> (Inl Thrown, clearPending oldCommitment store1)
                          | Some rawTransaction \<Rightarrow>
                             (Inr (rawTransaction, optimisticWithdrawTransaction),
                              markNullified oldCommitment optimisticWithdrawTransaction
                                store1)))))))"

section \<open>Example values for the JavaScript modules\<close>

text \<open>
  Stand-ins for the libraries in the examples: numbers are written in unary, the encoder
  writes the items one after the other, and the digest keeps its input.
\<close>

fun showVal :: "val \<Rightarrow> string" where
  "showVal (Str s) = s"
| "showVal (Num n) = replicate (nat n) CHR ''1''"
| "showVal Undefined = []"
| "showVal Null = []"

fun showItem :: "item \<Rightarrow> string" where
  "showItem (Scalar v) = showVal v @ '';''"
| "showItem (Array vs) = concat (map (\<lambda>v. showVal v @ '','') vs) @ '';''"

definition exampleLib :: Lib where
  "exampleLib =
     \<lparr>flatProof = (\<lambda>p. Some [p, p, p, p, p, p, p, p]),
      hex32 = (\<lambda>v. Some (showVal v)),
      compressProof = (\<lambda>p. Some (take 4 p)),
      encodeParameters = (\<lambda>items. Some (concat (map showItem items))),
      soliditySha3 = (\<lambda>s. ''0x'' @ s)\<rparr>"

definition exampleArgs :: Args where
  "exampleArgs =
     \<lparr>Args.fee = Num 1,
      Args.historicRootBlockNumberL2 = Some [Num 5],
      Args.transactionType = Num 1,
      Args.tokenType = Undefined,
      Args.tokenId = Undefined,
      Args.value = Undefined,
      Args.ercAddress = Str ''a'',
      Args.recipientAddress = Undefined,
      Args.commitments = Some [Str ''c''],
      Args.nullifiers = Some [Str ''n''],
      Args.compressedSecrets = None,
      Args.proof = None,
      numberNullifiers = 2,
      numberCommitments = 2\<rparr>"

definition exampleTransactionObject :: "string \<Rightarrow> TransactionObject" where
  "exampleTransactionObject h =
     \<lparr>TransactionObject.value = Str [],
      TransactionObject.fee = Str ''1'',
      TransactionObject.transactionType = Str ''1'',
      TransactionObject.tokenType = Str [],
      TransactionObject.historicRootBlockNumberL2 = [Str ''11111'', Str []],
      TransactionObject.tokenId = Str [],
      TransactionObject.ercAddress = Str ''a'',
      TransactionObject.recipientAddress = Str [],
      TransactionObject.commitments = [Str ''c'', Str []],
      TransactionObject.nullifiers = [Str ''n'', Str []],
      TransactionObject.compressedSecrets = [Str [], Str []],
      TransactionObject.proof = [Str [], Str [], Str [], Str [], Str [], Str [], Str [], Str []],
      transactionHash = Str h,
      mempool = None,
      blockNumber = Undefined,
      transactionHashL1 = Undefined\<rparr>"

definition emptyDb :: Db where
  "emptyDb = \<lparr>blocks = [], transactions = (\<lambda>h. None)\<rparr>"

text \<open>A store where the transaction with hash \<open>h\<close> is in a block, stored with a block number.\<close>

definition minedDb :: "string \<Rightarrow> val \<Rightarrow> Db" where
  "minedDb h n =
     \<lparr>blocks = [\<lparr>transactionHashes = [Str h]\<rparr>],
      transactions = (\<lambda>k. None)(Str h := Some ((exampleTransactionObject h)\<lparr>blockNumber := n\<rparr>))\<rparr>"

text \<open>
  An event of the chain (no \<^verbatim>\<open>offchain\<close> and no \<^verbatim>\<open>fromBlockProposer\<close> property) mined
  in the L1 block 100, and a decoder of its calldata.
\<close>

definition exampleEvent :: EventParams where
  "exampleEvent =
     \<lparr>offchain = None, fromBlockProposer = None,
      data = (exampleTransactionObject ''L1'')\<lparr>blockNumber := Num 100\<rparr>\<rparr>"

definition exampleCalldata :: "TransactionObject \<Rightarrow> TransactionObject option" where
  "exampleCalldata event = Some (exampleTransactionObject ''h'')"

definition rejectAll :: "TransactionObject \<Rightarrow> Db \<Rightarrow> jserror option" where
  "rejectAll transaction db = Some (TransactionError ''rejected'' 1)"

definition acceptAll :: "TransactionObject \<Rightarrow> Db \<Rightarrow> jserror option" where
  "acceptAll transaction db = None"

definition exampleCommitment :: Commitment where
  "exampleCommitment =
     \<lparr>hash = Str ''C'', compressedPkd = Str ''pkd'', Commitment.ercAddress = Str ''erc'',
      Commitment.tokenId = Num 0, Commitment.value = Num 10, status = Available\<rparr>"

definition exampleWithdrawParams :: WithdrawParams where
  "exampleWithdrawParams =
     \<lparr>WithdrawParams.ercAddress = Str ''erc'', WithdrawParams.tokenId = Num 0,
      WithdrawParams.value = Num 10, WithdrawParams.recipientAddress = Str ''r'',
      nsk = Str ''nsk'', ask = Str ''ask'', WithdrawParams.fee = Num 1,
      WithdrawParams.tokenType = Str ''ERC20''\<rparr>"

text \<open>Services that all answer, and the same services with \<^verbatim>\<open>getSiblingInfo\<close> failing.\<close>

definition exampleServices :: Services where
  "exampleServices =
     \<lparr>calculateIvkPkdfromAskNsk = (\<lambda>a n. Some (Str ''pkd'')),
      getSiblingInfo = (\<lambda>c. Some (Str ''root'')),
      getContractInstance = Some (),
      newTransaction = (\<lambda>ps c info. Some (exampleTransactionObject ''w'')),
      encodeABI = (\<lambda>transaction. Some (Str ''raw''))\<rparr>"

section \<open>Properties of the contract\<close>

subsection \<open>The tree height and the root calculation\<close>

lemma getTreeHeightLoop_ge: "height \<le> getTreeHeightLoop leaves height"
proof (induction leaves height rule: getTreeHeightLoop.induct)
  case (1 leaves height)
  show ?case
  proof (cases "2 ^ height < leaves")
    case True
    with 1 have "height + 1 \<le> getTreeHeightLoop leaves (height + 1)" by simp
    with True show ?thesis by (subst getTreeHeightLoop.simps) simp
  next
    case False
    then show ?thesis by (subst getTreeHeightLoop.simps) simp
  qed
qed

lemma getTreeHeightLoop_covers: "leaves \<le> 2 ^ getTreeHeightLoop leaves height"
proof (induction leaves height rule: getTreeHeightLoop.induct)
  case (1 leaves height)
  show ?case
  proof (cases "2 ^ height < leaves")
    case True
    with 1 show ?thesis by (subst getTreeHeightLoop.simps) simp
  next
    case False
    then show ?thesis by (subst getTreeHeightLoop.simps) simp
  qed
qed

lemma getTreeHeightLoop_least:
  "height \<le> h' \<Longrightarrow> leaves \<le> 2 ^ h' \<Longrightarrow> getTreeHeightLoop leaves height \<le> h'"
proof (induction leaves height rule: getTreeHeightLoop.induct)
  case (1 leaves height)
  show ?case
  proof (cases "2 ^ height < leaves")
    case True
    have "height \<noteq> h'"
      using True "1.prems"(2) by auto
    with "1.prems"(1) have "height + 1 \<le> h'" by simp
    with 1 True have "getTreeHeightLoop leaves (height + 1) \<le> h'" by simp
    with True show ?thesis by (subst getTreeHeightLoop.simps) simp
  next
    case False
    with "1.prems" show ?thesis by (subst getTreeHeightLoop.simps) simp
  qed
qed

lemma rootLevel_slot:
  "rootLevel K i j mem k =
     (if j \<le> k \<and> k < 2 ^ (i - 1) then nodeHash K (mem (2 * k)) (mem (2 * k + 1)) else mem k)"
proof (induction K i j mem rule: rootLevel.induct)
  case (1 K i j mem)
  show ?case
  proof (cases "j < 2 ^ (i - 1)")
    case True
    let ?mem' = "mem(j := nodeHash K (mem (2 * j)) (mem (2 * j + 1)))"
    have step: "rootLevel K i j mem = rootLevel K i (j + 1) ?mem'"
      using True by (subst rootLevel.simps) simp
    have ih: "rootLevel K i (j + 1) ?mem' k =
        (if j + 1 \<le> k \<and> k < 2 ^ (i - 1) then nodeHash K (?mem' (2 * k)) (?mem' (2 * k + 1))
         else ?mem' k)"
      by (rule "1.IH" [OF True])
    show ?thesis
    proof (cases "j + 1 \<le> k")
      case above: True
      then have "2 * k \<noteq> j" "2 * k + 1 \<noteq> j" "k \<noteq> j" by arith+
      then show ?thesis unfolding step ih using above by simp
    next
      case below: False
      show ?thesis
      proof (cases "k = j")
        case True
        then show ?thesis unfolding step ih using \<open>j < 2 ^ (i - 1)\<close> by simp
      next
        case False
        with below have "\<not> j \<le> k" by simp
        then show ?thesis unfolding step ih using False by simp
      qed
    qed
  next
    case False
    then have "\<not> (j \<le> k \<and> k < 2 ^ (i - 1))" by arith
    moreover have "rootLevel K i j mem = mem"
      using False by (subst rootLevel.simps) simp
    ultimately show ?thesis by auto
  qed
qed

lemma merkleNode_bottom_up:
  "merkleNode K (Suc i) leaves k =
     merkleNode K i (\<lambda>j. nodeHash K (leaves (2 * j)) (leaves (2 * j + 1))) k"
proof (induction i arbitrary: k)
  case 0
  show ?case by simp
next
  case (Suc i)
  let ?g = "\<lambda>j. nodeHash K (leaves (2 * j)) (leaves (2 * j + 1))"
  have "merkleNode K (Suc (Suc i)) leaves k =
      nodeHash K (merkleNode K (Suc i) leaves (2 * k)) (merkleNode K (Suc i) leaves (2 * k + 1))"
    by (simp only: merkleNode.simps)
  also have "\<dots> = nodeHash K (merkleNode K i ?g (2 * k)) (merkleNode K i ?g (2 * k + 1))"
    by (simp only: Suc.IH)
  also have "\<dots> = merkleNode K (Suc i) ?g k"
    by (simp only: merkleNode.simps)
  finally show ?case .
qed

lemma merkleNode_cong:
  "(\<And>j. j < 2 ^ i * (k + 1) \<Longrightarrow> f j = g j) \<Longrightarrow> merkleNode K i f k = merkleNode K i g k"
proof (induction i arbitrary: k)
  case 0
  then show ?case by simp
next
  case (Suc i)
  have "merkleNode K i f (2 * k) = merkleNode K i g (2 * k)"
    by (rule Suc.IH) (rule Suc.prems, simp)
  moreover have "merkleNode K i f (2 * k + 1) = merkleNode K i g (2 * k + 1)"
    by (rule Suc.IH) (rule Suc.prems, simp add: algebra_simps)
  ultimately show ?case by simp
qed

lemma rootLevels_merkle: "rootLevels K i mem 0 = merkleNode K i mem 0"
proof (induction i arbitrary: mem)
  case 0
  show ?case by (subst rootLevels.simps) simp
next
  case (Suc i)
  have "rootLevels K (Suc i) mem 0 = rootLevels K i (rootLevel K (Suc i) 0 mem) 0"
    by (subst rootLevels.simps) simp
  also have "\<dots> = merkleNode K i (rootLevel K (Suc i) 0 mem) 0"
    by (rule Suc.IH)
  also have "\<dots> = merkleNode K i (\<lambda>j. nodeHash K (mem (2 * j)) (mem (2 * j + 1))) 0"
    by (rule merkleNode_cong) (simp add: rootLevel_slot)
  also have "\<dots> = merkleNode K (Suc i) mem 0"
    by (simp only: merkleNode_bottom_up)
  finally show ?case .
qed

lemma storeSlots_slot:
  "storeSlots mem pos ws k =
     (if pos \<le> k \<and> k < pos + length ws then ws ! (k - pos) else mem k)"
proof (induction ws arbitrary: mem pos)
  case Nil
  show ?case by auto
next
  case (Cons w ws)
  have "storeSlots mem pos (w # ws) k = storeSlots (mem(pos := w)) (pos + 1) ws k"
    by (simp only: storeSlots.simps)
  also have "\<dots> = (if pos + 1 \<le> k \<and> k < pos + 1 + length ws then ws ! (k - (pos + 1))
                      else (mem(pos := w)) k)"
    by (rule Cons.IH)
  also have "\<dots> = (if pos \<le> k \<and> k < pos + length (w # ws) then (w # ws) ! (k - pos) else mem k)"
    by (auto simp: nth_Cons')
  finally show ?case .
qed

lemma loadSlots_storeSlots: "loadSlots (storeSlots mem pos ws) pos (length ws) = ws"
  by (rule nth_equalityI) (simp_all add: loadSlots_def storeSlots_slot)

lemma hashTransactions_step:
  "hashTransactions c pos (tx # ts) i mem =
     (if Transaction.transactionType tx = 0 \<and>
         escrowWord c (keccak256 c (transactionSlotsOf tx)) = 0
      then Inl RevertEmpty
      else hashTransactions c pos ts (i + 1)
             ((storeSlots mem pos (transactionSlotsOf tx))
                (i := keccak256 c (transactionSlotsOf tx))))"
  by (simp add: Let_def loadSlots_storeSlots)

declare hashTransactions.simps(2) [simp del]

lemma hashTransactions_slots:
  "hashTransactions c pos t i mem = Inr mem' \<Longrightarrow> i + length t \<le> pos \<Longrightarrow> k < pos \<Longrightarrow>
     mem' k = (if i \<le> k \<and> k < i + length t then keccak256 c (transactionSlotsOf (t ! (k - i)))
               else mem k)"
proof (induction t arbitrary: i mem)
  case Nil
  then show ?case by auto
next
  case (Cons tx ts)
  let ?m = "(storeSlots mem pos (transactionSlotsOf tx)) (i := keccak256 c (transactionSlotsOf tx))"
  from Cons.prems(1) have rest: "hashTransactions c pos ts (i + 1) ?m = Inr mem'"
    by (simp add: hashTransactions_step split: if_splits)
  from Cons.prems(2) have room: "i + 1 + length ts \<le> pos"
    by simp
  have "mem' k = (if i + 1 \<le> k \<and> k < i + 1 + length ts
                  then keccak256 c (transactionSlotsOf (ts ! (k - (i + 1)))) else ?m k)"
    by (rule Cons.IH [OF rest room Cons.prems(3)])
  moreover have "?m k = (if k = i then keccak256 c (transactionSlotsOf tx) else mem k)"
    using Cons.prems(3) by (simp add: storeSlots_slot)
  ultimately show ?case
    by (cases "k = i") (auto simp: nth_Cons')
qed

lemma hashTransactions_deposits:
  "(\<exists>mem'. hashTransactions c pos t i mem = Inr mem') \<longleftrightarrow>
   list_all (\<lambda>tx. Transaction.transactionType tx = 0 \<longrightarrow>
                    escrowWord c (keccak256 c (transactionSlotsOf tx)) \<noteq> 0) t"
proof (induction t arbitrary: i mem)
  case Nil
  show ?case by simp
next
  case (Cons tx ts)
  show ?case
    by (simp add: hashTransactions_step Cons.IH)
qed

lemma merkleNode_height_2:
  "merkleNode K 2 f 0 = nodeHash K (nodeHash K (f 0) (f 1)) (nodeHash K (f 2) (f 3))"
proof -
  have "merkleNode K (Suc (Suc 0)) f 0 =
      nodeHash K (nodeHash K (f 0) (f 1)) (nodeHash K (f 2) (f 3))"
    by (simp add: numeral_3_eq_3)
  then show ?thesis
    by (simp only: numeral_2_eq_2)
qed

lemma getTreeHeight_least:
  "1 \<le> getTreeHeight n \<and> n \<le> 2 ^ getTreeHeight n \<and>
   (\<forall>h'. 1 \<le> h' \<and> n \<le> 2 ^ h' \<longrightarrow> getTreeHeight n \<le> h')"
  unfolding getTreeHeight_def
  using getTreeHeightLoop_ge [of 1 n] getTreeHeightLoop_covers [of n 1]
    getTreeHeightLoop_least [of 1 _ n]
  by blast

lemma hashTransactions_leafSlots:
  assumes "hashTransactions c (2 ^ getTreeHeight (length t)) t 0 (\<lambda>k. 0) = Inr mem"
    and "k < 2 ^ getTreeHeight (length t)"
  shows "mem k = leafSlots c t k"
proof -
  have "0 + length t \<le> 2 ^ getTreeHeight (length t)"
    using getTreeHeight_least [of "length t"] by simp
  from hashTransactions_slots [OF assms(1) this assms(2)] show ?thesis
    by (simp add: leafSlots_def)
qed

lemma rootLevels_transactionsRoot:
  assumes "hashTransactions c (2 ^ getTreeHeight (length t)) t 0 (\<lambda>k. 0) = Inr mem"
  shows "rootLevels (keccak256 c) (getTreeHeight (length t)) mem 0 = transactionsRoot c t"
proof -
  have "merkleNode (keccak256 c) (getTreeHeight (length t)) mem 0 =
      merkleNode (keccak256 c) (getTreeHeight (length t)) (leafSlots c t) 0"
    by (rule merkleNode_cong) (simp add: hashTransactions_leafSlots [OF assms])
  then show ?thesis
    by (simp add: rootLevels_merkle transactionsRoot_def)
qed

lemma proposeBlock_Inr:
  assumes "proposeBlock c m b t s = Inr s'"
  shows "msg_sender m = thisAddress (currentProposer s)" "\<not> paused s"
    "unat (Block.blockNumberL2 b) = length (blockHashes s)"
    "blockHashes s \<noteq> [] \<Longrightarrow> previousBlockHash b = blockHash (last (blockHashes s))"
    "BLOCK_STAKE c \<le> msg_value m" "proposer b = msg_sender m"
    "length t \<le> unat (TRANSACTIONS_PER_BLOCK c)"
    "list_all (\<lambda>tx. Transaction.transactionType tx = 0 \<longrightarrow>
                      escrowWord c (keccak256 c (transactionSlotsOf tx)) \<noteq> 0) t"
    "transactionHashesRoot b = transactionsRoot c t"
    "blockHashes s' = blockHashes s @
       [\<lparr>blockHash = keccak256 c (blockSlotsOf b), time = block_timestamp m\<rparr>]"
proof -
  note split = if_splits sum.splits
  from assms show "msg_sender m = thisAddress (currentProposer s)"
    by (simp add: proposeBlock_def split: split)
  from assms show "\<not> paused s"
    by (simp add: proposeBlock_def split: split)
  from assms show "unat (Block.blockNumberL2 b) = length (blockHashes s)"
    by (simp add: proposeBlock_def split: split)
  from assms show "blockHashes s \<noteq> [] \<Longrightarrow> previousBlockHash b = blockHash (last (blockHashes s))"
    by (simp add: proposeBlock_def split: split)
  from assms show "BLOCK_STAKE c \<le> msg_value m"
    by (simp add: proposeBlock_def split: split)
  from assms show "proposer b = msg_sender m"
    by (simp add: proposeBlock_def split: split)
  from assms show "length t \<le> unat (TRANSACTIONS_PER_BLOCK c)"
    by (simp add: proposeBlock_def split: split)
  from assms obtain mem
    where mem: "hashTransactions c (2 ^ getTreeHeight (length t)) t 0 (\<lambda>k. 0) = Inr mem"
    and root: "transactionHashesRoot b = rootLevels (keccak256 c) (getTreeHeight (length t)) mem 0"
    by (auto simp: proposeBlock_def split: split)
  from mem show "list_all (\<lambda>tx. Transaction.transactionType tx = 0 \<longrightarrow>
                      escrowWord c (keccak256 c (transactionSlotsOf tx)) \<noteq> 0) t"
    using hashTransactions_deposits by blast
  from root show "transactionHashesRoot b = transactionsRoot c t"
    by (simp add: rootLevels_transactionsRoot [OF mem])
  from assms show "blockHashes s' = blockHashes s @
       [\<lparr>blockHash = keccak256 c (blockSlotsOf b), time = block_timestamp m\<rparr>]"
    by (auto simp: proposeBlock_def split: split)
qed

lemma proposeBlock_accepts:
  assumes "msg_sender m = thisAddress (currentProposer s)" "\<not> paused s"
    and "unat (Block.blockNumberL2 b) = length (blockHashes s)"
    and "blockHashes s \<noteq> [] \<longrightarrow> previousBlockHash b = blockHash (last (blockHashes s))"
    and "BLOCK_STAKE c \<le> msg_value m" "proposer b = msg_sender m"
    and "length t \<le> unat (TRANSACTIONS_PER_BLOCK c)"
    and fees: "feePayments t 0 0 = Inr fees"
    and escrow: "list_all (\<lambda>tx. Transaction.transactionType tx = 0 \<longrightarrow>
                      escrowWord c (keccak256 c (transactionSlotsOf tx)) \<noteq> 0) t"
    and root: "transactionHashesRoot b = transactionsRoot c t"
  shows "proposeBlock c m b t s =
     Inr (s\<lparr>feeBook := (feeBook s)(keccak256 c [ucast (proposer b), Block.blockNumberL2 b] := fees),
            blockHashes := blockHashes s @
              [\<lparr>blockHash = keccak256 c (blockSlotsOf b), time = block_timestamp m\<rparr>]\<rparr>)"
proof -
  from escrow obtain mem
    where mem: "hashTransactions c (2 ^ getTreeHeight (length t)) t 0 (\<lambda>k. 0) = Inr mem"
    using hashTransactions_deposits by blast
  have "rootLevels (keccak256 c) (getTreeHeight (length t)) mem 0 = transactionHashesRoot b"
    by (simp add: rootLevels_transactionsRoot [OF mem] root)
  with assms(1-7) fees mem show ?thesis
    by (auto simp: proposeBlock_def)
qed

lemma not_Inr_reverts: "(\<And>s'. f \<noteq> Inr s') \<Longrightarrow> \<exists>e. f = Inl e"
  by (cases f) auto

lemma exampleRoot:
  "transactionsRoot exampleConfig
     [exampleTransaction 1 1, exampleTransaction 1 2, exampleTransaction 1 3] = 21"
  "transactionsRoot exampleConfig [] = 0"
  "transactionsRoot exampleConfig [exampleTransaction 0 1] = 4"
proof -
  have heights: "getTreeHeight (Suc (Suc (Suc 0))) = 2" "getTreeHeight 0 = 1"
    "getTreeHeight (Suc 0) = 1"
    by code_simp+
  show "transactionsRoot exampleConfig
     [exampleTransaction 1 1, exampleTransaction 1 2, exampleTransaction 1 3] = 21"
    by (simp add: transactionsRoot_def heights merkleNode_height_2 leafSlots_def nodeHash_def
        exampleConfig_def exampleTransaction_def transactionSlotsOf_def sumHash_def)
  show "transactionsRoot exampleConfig [] = 0"
    by (simp add: transactionsRoot_def heights leafSlots_def nodeHash_def)
  show "transactionsRoot exampleConfig [exampleTransaction 0 1] = 4"
    by (simp add: transactionsRoot_def heights leafSlots_def nodeHash_def
        exampleConfig_def exampleTransaction_def transactionSlotsOf_def sumHash_def)
qed

lemma proposeBlock_accepts_ex:
  assumes "msg_sender m = thisAddress (currentProposer s)" "\<not> paused s"
    and "unat (Block.blockNumberL2 b) = length (blockHashes s)"
    and "blockHashes s \<noteq> [] \<longrightarrow> previousBlockHash b = blockHash (last (blockHashes s))"
    and "BLOCK_STAKE c \<le> msg_value m" "proposer b = msg_sender m"
    and "length t \<le> unat (TRANSACTIONS_PER_BLOCK c)"
    and "feePayments t 0 0 = Inr fees"
    and "list_all (\<lambda>tx. Transaction.transactionType tx = 0 \<longrightarrow>
                      escrowWord c (keccak256 c (transactionSlotsOf tx)) \<noteq> 0) t"
    and "transactionHashesRoot b = transactionsRoot c t"
  shows "\<exists>s'. proposeBlock c m b t s = Inr s'"
  using proposeBlock_accepts [OF assms] by blast

lemma scratchWord_nonzero: "scratchWord h \<noteq> 0"
proof
  assume zero: "scratchWord h = 0"
  have "bit (scratchWord h) 227"
    by (simp add: scratchWord_def checkTxEscrowedSignature_def bit_or_iff bit_push_bit_iff
        bit_ucast_iff)
  with zero show False
    by simp
qed

lemma escrowWord_no_code:
  "extcall c (of_nat (shieldAddress_slot c)) checkTxEscrowedSignature h = None \<Longrightarrow>
   escrowWord c h \<noteq> 0"
  by (simp add: escrowWord_def scratchWord_nonzero)

lemma exampleAccepted:
  "\<exists>s'. proposeBlock exampleConfig exampleMsg (exampleBlock 0 0 21)
     [exampleTransaction 1 1, exampleTransaction 1 2, exampleTransaction 1 3] exampleState = Inr s'"
  "\<exists>s'. proposeBlock exampleConfig exampleMsg (exampleBlock 0 0 0) [] exampleState = Inr s'"
  "\<exists>s'. proposeBlock exampleConfig exampleMsg (exampleBlock 0 0 4) [exampleTransaction 0 1]
     exampleState = Inr s'"
proof -
  show "\<exists>s'. proposeBlock exampleConfig exampleMsg (exampleBlock 0 0 21)
     [exampleTransaction 1 1, exampleTransaction 1 2, exampleTransaction 1 3] exampleState = Inr s'"
    by (rule proposeBlock_accepts_ex [where fees = "(0, 6)"])
      (simp_all add: exampleRoot,
        simp_all add: exampleConfig_def exampleMsg_def exampleBlock_def exampleState_def
          exampleProposer_def exampleTransaction_def checkedAdd_def)
  show "\<exists>s'. proposeBlock exampleConfig exampleMsg (exampleBlock 0 0 0) [] exampleState = Inr s'"
    by (rule proposeBlock_accepts_ex [where fees = "(0, 0)"])
      (simp_all add: exampleRoot,
        simp_all add: exampleConfig_def exampleMsg_def exampleBlock_def exampleState_def
          exampleProposer_def)
  have "escrowWord exampleConfig (keccak256 exampleConfig (transactionSlotsOf (exampleTransaction 0 1)))
      \<noteq> 0"
    by (rule escrowWord_no_code) (simp add: exampleConfig_def)
  then show "\<exists>s'. proposeBlock exampleConfig exampleMsg (exampleBlock 0 0 4) [exampleTransaction 0 1]
     exampleState = Inr s'"
    by (intro proposeBlock_accepts_ex [where fees = "(1, 0)"])
      (simp_all add: exampleRoot,
        simp_all add: exampleConfig_def exampleMsg_def exampleBlock_def exampleState_def
          exampleProposer_def exampleTransaction_def checkedAdd_def)
qed



text \<open>
  C3. For every block accepted by proposeBlock, the root of the transactions hash tree
  recomputed from the submitted transactions equals the \<^verbatim>\<open>transactionHashesRoot\<close> of the
  block, and a call with another root reverts; the block hash stored is the keccak256 of
  the slots of the block, the last of which is that root, and no slot of a transaction
  enters it.
\<close>

theorem proposeBlock_root_and_hash:
  "(proposeBlock c m b t s = Inr s' \<longrightarrow>
      transactionHashesRoot b = transactionsRoot c t \<and>
      blockHashes s' = blockHashes s @
        [\<lparr>blockHash = keccak256 c (blockSlotsOf b), time = block_timestamp m\<rparr>] \<and>
      blockHash (last (blockHashes s')) = keccak256 c (blockSlotsOf b) \<and>
      last (blockSlotsOf b) = transactionHashesRoot b) \<and>
   (transactionHashesRoot b \<noteq> transactionsRoot c t \<longrightarrow>
      (\<exists>e. proposeBlock c m b t s = Inl e))"
proof (intro conjI impI)
  assume ok: "proposeBlock c m b t s = Inr s'"
  show "transactionHashesRoot b = transactionsRoot c t"
    by (rule proposeBlock_Inr(9) [OF ok])
  show stored: "blockHashes s' = blockHashes s @
        [\<lparr>blockHash = keccak256 c (blockSlotsOf b), time = block_timestamp m\<rparr>]"
    by (rule proposeBlock_Inr(10) [OF ok])
  show "blockHash (last (blockHashes s')) = keccak256 c (blockSlotsOf b)"
    by (simp add: stored)
  show "last (blockSlotsOf b) = transactionHashesRoot b"
    by (simp add: blockSlotsOf_def)
next
  assume differs: "transactionHashesRoot b \<noteq> transactionsRoot c t"
  show "\<exists>e. proposeBlock c m b t s = Inl e"
  proof (rule not_Inr_reverts)
    fix s''
    show "proposeBlock c m b t s \<noteq> Inr s''"
      using proposeBlock_Inr(9) [of c m b t s s''] differs by blast
  qed
qed

theorem proposeBlock_root_and_hash_witness:
  "(\<exists>s'. proposeBlock exampleConfig exampleMsg (exampleBlock 0 0 21)
       [exampleTransaction 1 1, exampleTransaction 1 2, exampleTransaction 1 3] exampleState
       = Inr s' \<and>
      blockHashes s' = [\<lparr>blockHash = 23, time = 1000\<rparr>]) \<and>
   transactionsRoot exampleConfig
     [exampleTransaction 1 1, exampleTransaction 1 2, exampleTransaction 1 3] = 21 \<and>
   (\<exists>e. proposeBlock exampleConfig exampleMsg (exampleBlock 0 0 20)
     [exampleTransaction 1 1, exampleTransaction 1 2, exampleTransaction 1 3] exampleState = Inl e)"
proof -
  let ?t = "[exampleTransaction 1 1, exampleTransaction 1 2, exampleTransaction 1 3]"
  from exampleAccepted(1) obtain s'
    where run: "proposeBlock exampleConfig exampleMsg (exampleBlock 0 0 21) ?t exampleState = Inr s'"
    by blast
  from proposeBlock_root_and_hash [where c = exampleConfig and m = exampleMsg
      and b = "exampleBlock 0 0 21" and t = ?t and s = exampleState and s' = s'] run
  have root: "transactionHashesRoot (exampleBlock 0 0 21) = transactionsRoot exampleConfig ?t"
    and stored: "blockHashes s' = blockHashes exampleState @
        [\<lparr>blockHash = keccak256 exampleConfig (blockSlotsOf (exampleBlock 0 0 21)),
          time = block_timestamp exampleMsg\<rparr>]"
    by blast+
  from stored have hashes: "blockHashes s' = [\<lparr>blockHash = 23, time = 1000\<rparr>]"
    by (simp add: exampleState_def exampleConfig_def exampleBlock_def exampleMsg_def
        blockSlotsOf_def sumHash_def)
  from root have r: "transactionsRoot exampleConfig ?t = 21"
    by (simp add: exampleBlock_def)
  then have "transactionHashesRoot (exampleBlock 0 0 20) \<noteq> transactionsRoot exampleConfig ?t"
    by (simp add: exampleBlock_def)
  then have "\<exists>e. proposeBlock exampleConfig exampleMsg (exampleBlock 0 0 20) ?t exampleState = Inl e"
    using proposeBlock_root_and_hash [where c = exampleConfig and m = exampleMsg
        and b = "exampleBlock 0 0 20" and t = ?t and s = exampleState]
    by blast
  with run hashes r show ?thesis by blast
qed

subsection \<open>The chain of stored blocks\<close>

lemma chained_step:
  assumes inv: "chained c accepted (blockHashes s)"
    and ok: "proposeBlock c m b t s = Inr s'"
  shows "chained c (accepted @ [b]) (blockHashes s')"
proof -
  let ?K = "\<lambda>b. keccak256 c (blockSlotsOf b)"
  from inv have hashes: "map blockHash (blockHashes s) = map ?K accepted"
    and links: "\<And>i. i < length accepted \<Longrightarrow>
        unat (Block.blockNumberL2 (accepted ! i)) = i \<and>
        (0 < i \<longrightarrow> previousBlockHash (accepted ! i) = ?K (accepted ! (i - 1)))"
    by (simp_all add: chained_def)
  from hashes have len: "length (blockHashes s) = length accepted"
    by (metis length_map)
  have stored: "blockHashes s' = blockHashes s @
      [\<lparr>blockHash = ?K b, time = block_timestamp m\<rparr>]"
    by (rule proposeBlock_Inr(10) [OF ok])
  have number: "unat (Block.blockNumberL2 b) = length accepted"
    using proposeBlock_Inr(3) [OF ok] len by simp
  have previous: "previousBlockHash b = ?K (accepted ! (length accepted - 1))"
    if "0 < length accepted"
  proof -
    from that len have nonempty: "blockHashes s \<noteq> []" "accepted \<noteq> []"
      by auto
    have "previousBlockHash b = blockHash (last (blockHashes s))"
      by (rule proposeBlock_Inr(4) [OF ok nonempty(1)])
    also have "\<dots> = last (map blockHash (blockHashes s))"
      using nonempty(1) by (simp add: last_map)
    also have "\<dots> = last (map ?K accepted)"
      by (simp only: hashes)
    also have "\<dots> = ?K (accepted ! (length accepted - 1))"
      using nonempty(2) by (simp add: last_map last_conv_nth)
    finally show ?thesis .
  qed
  have "map blockHash (blockHashes s') = map ?K (accepted @ [b])"
    by (simp add: stored hashes)
  moreover have "unat (Block.blockNumberL2 ((accepted @ [b]) ! i)) = i \<and>
      (0 < i \<longrightarrow> previousBlockHash ((accepted @ [b]) ! i) = ?K ((accepted @ [b]) ! (i - 1)))"
    if "i < length (accepted @ [b])" for i
  proof (cases "i < length accepted")
    case True
    then have "i - 1 < length accepted"
      by simp
    then show ?thesis
      using links [OF True] True by (simp add: nth_append)
  next
    case False
    with that have "i = length accepted" by simp
    then show ?thesis
      using number previous by (auto simp: nth_append)
  qed
  ultimately show ?thesis
    by (simp add: chained_def)
qed

lemma proposeBlocks_chained:
  "chained c accepted (blockHashes s) \<Longrightarrow>
   chained c (snd (proposeBlocks c calls s accepted))
     (blockHashes (fst (proposeBlocks c calls s accepted)))"
proof (induction calls arbitrary: s accepted)
  case Nil
  then show ?case by simp
next
  case (Cons call calls)
  obtain m b t where call: "call = (m, b, t)"
    by (cases call) auto
  show ?case
  proof (cases "proposeBlock c m b t s")
    case (Inl e)
    then show ?thesis
      using Cons.IH [OF Cons.prems] by (simp add: call)
  next
    case (Inr s')
    have "chained c (accepted @ [b]) (blockHashes s')"
      by (rule chained_step [OF Cons.prems Inr])
    then show ?thesis
      using Cons.IH [of "accepted @ [b]" s'] Inr by (simp add: call)
  qed
qed

text \<open>
  C1, as stated, fails: the block number, the previous hash, the stake, the proposer and
  the number of transactions all pass, and the call still reverts, in the assembly, because
  the transactions root of the block is not the computed one. Nothing is appended.
\<close>

theorem proposeBlock_checks_pass_counterexample:
  "unat (Block.blockNumberL2 (exampleBlock 0 0 5)) = length (blockHashes exampleState) \<and>
   blockHashes exampleState = [] \<and>
   length ([] :: Transaction list) \<le> unat (TRANSACTIONS_PER_BLOCK exampleConfig) \<and>
   BLOCK_STAKE exampleConfig \<le> msg_value exampleMsg \<and>
   proposer (exampleBlock 0 0 5) = msg_sender exampleMsg \<and>
   proposeBlock exampleConfig exampleMsg (exampleBlock 0 0 5) [] exampleState = Inl RevertEmpty"
proof -
  have "rootLevels (keccak256 exampleConfig) (getTreeHeight (length ([] :: Transaction list)))
      (\<lambda>k. 0) 0 = transactionsRoot exampleConfig []"
    by (rule rootLevels_transactionsRoot) simp
  then have root: "rootLevels sumHash (getTreeHeight 0) (\<lambda>k. 0) 0 = 0"
    by (simp add: exampleRoot) (simp add: exampleConfig_def)
  show ?thesis
    by (simp add: proposeBlock_def exampleConfig_def exampleMsg_def exampleBlock_def
        exampleState_def exampleProposer_def root)
qed

text \<open>
  C1, amended. A call to proposeBlock reverts if the block number differs from the number
  of stored blocks, or (when a block is stored) if the previous hash differs from the hash
  of the last stored block, or if there are more than \<^verbatim>\<open>TRANSACTIONS_PER_BLOCK\<close>
  transactions, or if the stake paid is below \<^verbatim>\<open>BLOCK_STAKE\<close>. When the call does not
  revert, these conditions hold and exactly one entry, the hash of the block, is appended
  to the stored blocks. Hence over any sequence of calls the accepted blocks are numbered
  from zero without a gap and each names the hash of the block before it.
\<close>

theorem proposeBlock_sequencing:
  "(unat (Block.blockNumberL2 b) \<noteq> length (blockHashes s) \<longrightarrow>
      (\<exists>e. proposeBlock c m b t s = Inl e)) \<and>
   (blockHashes s \<noteq> [] \<and> previousBlockHash b \<noteq> blockHash (last (blockHashes s)) \<longrightarrow>
      (\<exists>e. proposeBlock c m b t s = Inl e)) \<and>
   (unat (TRANSACTIONS_PER_BLOCK c) < length t \<longrightarrow> (\<exists>e. proposeBlock c m b t s = Inl e)) \<and>
   (msg_value m < BLOCK_STAKE c \<longrightarrow> (\<exists>e. proposeBlock c m b t s = Inl e)) \<and>
   (proposeBlock c m b t s = Inr s' \<longrightarrow>
      blockHashes s' = blockHashes s @
        [\<lparr>blockHash = keccak256 c (blockSlotsOf b), time = block_timestamp m\<rparr>] \<and>
      length (blockHashes s') = length (blockHashes s) + 1 \<and>
      unat (Block.blockNumberL2 b) = length (blockHashes s) \<and>
      (blockHashes s \<noteq> [] \<longrightarrow> previousBlockHash b = blockHash (last (blockHashes s)))) \<and>
   (chained c accepted (blockHashes s) \<longrightarrow>
      chained c (snd (proposeBlocks c calls s accepted))
        (blockHashes (fst (proposeBlocks c calls s accepted))))"
proof (intro conjI impI)
  assume "unat (Block.blockNumberL2 b) \<noteq> length (blockHashes s)"
  then have "proposeBlock c m b t s \<noteq> Inr s''" for s''
    using proposeBlock_Inr(3) [of c m b t s s''] by blast
  then show "\<exists>e. proposeBlock c m b t s = Inl e"
    by (rule not_Inr_reverts)
next
  assume "blockHashes s \<noteq> [] \<and> previousBlockHash b \<noteq> blockHash (last (blockHashes s))"
  then have "proposeBlock c m b t s \<noteq> Inr s''" for s''
    using proposeBlock_Inr(4) [of c m b t s s''] by blast
  then show "\<exists>e. proposeBlock c m b t s = Inl e"
    by (rule not_Inr_reverts)
next
  assume "unat (TRANSACTIONS_PER_BLOCK c) < length t"
  then have "proposeBlock c m b t s \<noteq> Inr s''" for s''
    using proposeBlock_Inr(7) [of c m b t s s''] by auto
  then show "\<exists>e. proposeBlock c m b t s = Inl e"
    by (rule not_Inr_reverts)
next
  assume "msg_value m < BLOCK_STAKE c"
  then have "proposeBlock c m b t s \<noteq> Inr s''" for s''
    using proposeBlock_Inr(5) [of c m b t s s''] by auto
  then show "\<exists>e. proposeBlock c m b t s = Inl e"
    by (rule not_Inr_reverts)
next
  assume ok: "proposeBlock c m b t s = Inr s'"
  show stored: "blockHashes s' = blockHashes s @
      [\<lparr>blockHash = keccak256 c (blockSlotsOf b), time = block_timestamp m\<rparr>]"
    by (rule proposeBlock_Inr(10) [OF ok])
  show "length (blockHashes s') = length (blockHashes s) + 1"
    by (simp add: stored)
  show "unat (Block.blockNumberL2 b) = length (blockHashes s)"
    by (rule proposeBlock_Inr(3) [OF ok])
  show "previousBlockHash b = blockHash (last (blockHashes s))" if "blockHashes s \<noteq> []"
    by (rule proposeBlock_Inr(4) [OF ok that])
next
  assume "chained c accepted (blockHashes s)"
  then show "chained c (snd (proposeBlocks c calls s accepted))
      (blockHashes (fst (proposeBlocks c calls s accepted)))"
    by (rule proposeBlocks_chained)
qed

theorem proposeBlock_sequencing_witness:
  "(\<exists>s'. proposeBlock exampleConfig exampleMsg (exampleBlock 0 0 0) [] exampleState = Inr s' \<and>
      blockHashes s' = [\<lparr>blockHash = 2, time = 1000\<rparr>]) \<and>
   chained exampleConfig [] (blockHashes exampleState) \<and>
   chained exampleConfig
     (snd (proposeBlocks exampleConfig
        [(exampleMsg, exampleBlock 0 0 0, []), (exampleMsg, exampleBlock 5 0 0, []),
         (exampleMsg, exampleBlock 1 2 0, [])] exampleState []))
     (blockHashes (fst (proposeBlocks exampleConfig
        [(exampleMsg, exampleBlock 0 0 0, []), (exampleMsg, exampleBlock 5 0 0, []),
         (exampleMsg, exampleBlock 1 2 0, [])] exampleState []))) \<and>
   (\<exists>e. proposeBlock exampleConfig exampleMsg (exampleBlock 5 0 0) [] exampleState = Inl e)"
proof -
  from exampleAccepted(2) obtain s'
    where run: "proposeBlock exampleConfig exampleMsg (exampleBlock 0 0 0) [] exampleState = Inr s'"
    by blast
  have start: "chained exampleConfig [] (blockHashes exampleState)"
    by (simp add: chained_def exampleState_def)
  have number: "unat (Block.blockNumberL2 (exampleBlock 5 0 0)) \<noteq> length (blockHashes exampleState)"
    by (simp add: exampleBlock_def exampleState_def)
  note inst = proposeBlock_sequencing [where c = exampleConfig and m = exampleMsg
      and s = exampleState and accepted = "[]"]
  from inst [where b = "exampleBlock 0 0 0" and t = "[]" and s' = s'] run
  have "blockHashes s' = blockHashes exampleState @
      [\<lparr>blockHash = keccak256 exampleConfig (blockSlotsOf (exampleBlock 0 0 0)),
        time = block_timestamp exampleMsg\<rparr>]"
    by blast
  then have stored: "blockHashes s' = [\<lparr>blockHash = 2, time = 1000\<rparr>]"
    by (simp add: exampleState_def exampleConfig_def exampleBlock_def exampleMsg_def
        blockSlotsOf_def sumHash_def)
  from inst [where b = "exampleBlock 5 0 0" and t = "[]"] number
  have "\<exists>e. proposeBlock exampleConfig exampleMsg (exampleBlock 5 0 0) [] exampleState = Inl e"
    by blast
  moreover from inst [where b = "exampleBlock 0 0 0" and t = "[]"] start
  have "chained exampleConfig
     (snd (proposeBlocks exampleConfig
        [(exampleMsg, exampleBlock 0 0 0, []), (exampleMsg, exampleBlock 5 0 0, []),
         (exampleMsg, exampleBlock 1 2 0, [])] exampleState []))
     (blockHashes (fst (proposeBlocks exampleConfig
        [(exampleMsg, exampleBlock 0 0 0, []), (exampleMsg, exampleBlock 5 0 0, []),
         (exampleMsg, exampleBlock 1 2 0, [])] exampleState [])))"
    by blast
  ultimately show ?thesis
    using run stored start by blast
qed

subsection \<open>The escrow check of deposits\<close>

text \<open>
  C6, the code at a failing input. The shield contract of the example chain, at the
  address stored in \<^verbatim>\<open>shieldAddress\<close>, answers that the deposit is not escrowed. The call
  of the assembly goes to the account whose address is the slot number of the variable,
  where there is no code; nothing is returned, the word read back is the selector followed
  by the start of the hash, which is not zero, and the block with the deposit is accepted.
\<close>

theorem proposeBlock_accepts_unescrowed_deposit:
  "Transaction.transactionType (exampleTransaction 0 1) = 0 \<and>
   extcall exampleConfig (shieldAddress exampleState) checkTxEscrowedSignature
     (keccak256 exampleConfig (transactionSlotsOf (exampleTransaction 0 1))) = Some 0 \<and>
   extcall exampleConfig (of_nat (shieldAddress_slot exampleConfig)) checkTxEscrowedSignature
     (keccak256 exampleConfig (transactionSlotsOf (exampleTransaction 0 1))) = None \<and>
   (\<exists>s'. proposeBlock exampleConfig exampleMsg (exampleBlock 0 0 4) [exampleTransaction 0 1]
       exampleState = Inr s' \<and>
      blockHashes s' = [\<lparr>blockHash = 6, time = 1000\<rparr>])"
proof -
  from exampleAccepted(3) obtain s'
    where run: "proposeBlock exampleConfig exampleMsg (exampleBlock 0 0 4) [exampleTransaction 0 1]
       exampleState = Inr s'"
    by blast
  have "blockHashes s' = blockHashes exampleState @
      [\<lparr>blockHash = keccak256 exampleConfig (blockSlotsOf (exampleBlock 0 0 4)),
        time = block_timestamp exampleMsg\<rparr>]"
    by (rule proposeBlock_Inr(10) [OF run])
  then have "blockHashes s' = [\<lparr>blockHash = 6, time = 1000\<rparr>]"
    by (simp add: exampleState_def exampleConfig_def exampleBlock_def exampleMsg_def
        blockSlotsOf_def sumHash_def)
  with run show ?thesis
    by (auto simp: exampleConfig_def exampleState_def exampleTransaction_def)
qed

subsection \<open>Removing a proposer\<close>

lemma removeProposer_proposers:
  assumes reg: "onlyRegistered m s"
    and ring: "linked live (proposers s)"
    and p: "p \<in> live"
    and other: "nextAddress (proposers s p) \<noteq> p"
    and q_def: "q = previousAddress (proposers s p)"
    and n_def: "n = nextAddress (proposers s p)"
  shows "\<exists>s'. removeProposer m p s = Inr s' \<and>
     proposers s' = (\<lambda>a. if a = n then (if n = q then (proposers s q)\<lparr>nextAddress := n\<rparr>
                                           else proposers s n)\<lparr>previousAddress := q\<rparr>
                          else if a = q then (proposers s q)\<lparr>nextAddress := n\<rparr>
                          else if a = p then zeroLinkedAddress else proposers s a) \<and>
     currentProposer s' = proposers s' n \<and> proposerStartBlock s' = block_number m"
    and "q \<in> live" "n \<in> live" "q \<noteq> p" "n \<noteq> p"
    and "thisAddress (proposers s q) = q" "thisAddress (proposers s n) = n"
proof -
  from ring p show n_live: "n \<in> live" and q_live: "q \<in> live"
    by (simp_all add: linked_def n_def q_def)
  from other show n_p: "n \<noteq> p"
    by (simp add: n_def)
  from ring p have q_next: "nextAddress (proposers s q) = p"
    by (simp add: linked_def q_def)
  show q_p: "q \<noteq> p"
  proof
    assume "q = p"
    with q_next have "nextAddress (proposers s p) = p" by simp
    with other show False by simp
  qed
  from ring q_live show this_q: "thisAddress (proposers s q) = q"
    by (simp add: linked_def)
  from ring n_live show this_n: "thisAddress (proposers s n) = n"
    by (simp add: linked_def)
  show "\<exists>s'. removeProposer m p s = Inr s' \<and>
     proposers s' = (\<lambda>a. if a = n then (if n = q then (proposers s q)\<lparr>nextAddress := n\<rparr>
                                           else proposers s n)\<lparr>previousAddress := q\<rparr>
                          else if a = q then (proposers s q)\<lparr>nextAddress := n\<rparr>
                          else if a = p then zeroLinkedAddress else proposers s a) \<and>
     currentProposer s' = proposers s' n \<and> proposerStartBlock s' = block_number m"
    using reg n_p q_p this_q this_n
    by (auto simp: removeProposer_def Let_def n_def [symmetric] q_def [symmetric] fun_eq_iff)
qed

lemma removeProposer_ring:
  assumes reg: "onlyRegistered m s"
    and ring: "linked live (proposers s)"
    and p: "p \<in> live"
    and other: "nextAddress (proposers s p) \<noteq> p"
  shows "\<exists>s'. removeProposer m p s = Inr s' \<and>
     proposers s' p = zeroLinkedAddress \<and>
     nextAddress (proposers s' (previousAddress (proposers s p))) = nextAddress (proposers s p) \<and>
     previousAddress (proposers s' (nextAddress (proposers s p))) = previousAddress (proposers s p) \<and>
     currentProposer s' = proposers s' (nextAddress (proposers s p)) \<and>
     thisAddress (currentProposer s') = nextAddress (proposers s p) \<and>
     thisAddress (currentProposer s') \<in> live - {p} \<and>
     linked (live - {p}) (proposers s')"
proof -
  define q where "q = previousAddress (proposers s p)"
  define n where "n = nextAddress (proposers s p)"
  note facts = removeProposer_proposers [OF reg ring p other q_def n_def]
  from facts(1) obtain s' where run: "removeProposer m p s = Inr s'"
    and ps: "proposers s' = (\<lambda>a. if a = n then (if n = q then (proposers s q)\<lparr>nextAddress := n\<rparr>
                                           else proposers s n)\<lparr>previousAddress := q\<rparr>
                          else if a = q then (proposers s q)\<lparr>nextAddress := n\<rparr>
                          else if a = p then zeroLinkedAddress else proposers s a)"
    and cur: "currentProposer s' = proposers s' n"
    by blast
  note q_live = facts(2) and n_live = facts(3) and q_p = facts(4) and n_p = facts(5)
    and this_q = facts(6) and this_n = facts(7)
  have deleted: "proposers s' p = zeroLinkedAddress"
    using q_p n_p by (simp add: ps)
  have next_q: "nextAddress (proposers s' q) = n"
    by (simp add: ps)
  have prev_n: "previousAddress (proposers s' n) = q"
    by (simp add: ps)
  have this_cur: "thisAddress (currentProposer s') = n"
    using this_q this_n by (simp add: cur ps)
  have ring': "linked (live - {p}) (proposers s')"
    unfolding linked_def
  proof (intro ballI)
    fix a
    assume "a \<in> live - {p}"
    then have a: "a \<in> live" "a \<noteq> p"
      by simp_all
    from ring a(1) have a_ring: "thisAddress (proposers s a) = a"
      "nextAddress (proposers s a) \<in> live" "previousAddress (proposers s a) \<in> live"
      "previousAddress (proposers s (nextAddress (proposers s a))) = a"
      "nextAddress (proposers s (previousAddress (proposers s a))) = a"
      by (simp_all add: linked_def)
    from ring p have p_ring: "previousAddress (proposers s n) = p" "nextAddress (proposers s q) = p"
      by (simp_all add: linked_def q_def n_def)
    have next_p: "a = q" if "nextAddress (proposers s a) = p"
      using a_ring(4) that by (simp add: q_def)
    have prev_p: "a = n" if "previousAddress (proposers s a) = p"
      using a_ring(5) that by (simp add: n_def)
    from ring q_live have q_ring: "previousAddress (proposers s q) \<in> live"
      "nextAddress (proposers s (previousAddress (proposers s q))) = q"
      by (simp_all add: linked_def)
    from ring n_live have n_ring: "nextAddress (proposers s n) \<in> live"
      "previousAddress (proposers s (nextAddress (proposers s n))) = n"
      by (simp_all add: linked_def)
    have at_n: "proposers s' n =
        (if n = q then (proposers s q)\<lparr>nextAddress := n\<rparr> else proposers s n)
          \<lparr>previousAddress := q\<rparr>"
      by (simp add: ps)
    have at_q: "proposers s' q = (proposers s q)\<lparr>nextAddress := n\<rparr>" if "n \<noteq> q"
      using that by (simp add: ps)
    have at_other: "proposers s' b = proposers s b" if "b \<noteq> n" "b \<noteq> q" "b \<noteq> p" for b
      using that by (simp add: ps)
    consider (both) "a = n" "n = q" | (nxt) "a = n" "n \<noteq> q" | (prv) "a = q" "n \<noteq> q"
      | (other) "a \<noteq> n" "a \<noteq> q"
      by blast
    then show "thisAddress (proposers s' a) = a \<and>
       nextAddress (proposers s' a) \<in> live - {p} \<and>
       previousAddress (proposers s' a) \<in> live - {p} \<and>
       previousAddress (proposers s' (nextAddress (proposers s' a))) = a \<and>
       nextAddress (proposers s' (previousAddress (proposers s' a))) = a"
    proof cases
      case both
      with at_n have "proposers s' a = (proposers s a)\<lparr>nextAddress := a, previousAddress := a\<rparr>"
        by simp
      then show ?thesis
        using a a_ring(1) by simp
    next
      case nxt
      let ?x = "nextAddress (proposers s n)"
      have x: "?x \<in> live" "?x \<noteq> p" "?x \<noteq> n"
        using n_ring(1) next_p nxt p_ring(1) n_ring(2) n_p by auto
      have "previousAddress (proposers s' ?x) = n"
      proof (cases "?x = q")
        case True
        then show ?thesis
          using n_ring(2) nxt(2) by (simp add: at_q)
      next
        case False
        then show ?thesis
          using n_ring(2) x by (simp add: at_other)
      qed
      then show ?thesis
        using nxt this_n x q_live q_p by (simp add: at_n at_q)
    next
      case prv
      let ?y = "previousAddress (proposers s q)"
      have y: "?y \<in> live" "?y \<noteq> p" "?y \<noteq> q"
        using q_ring(1) prev_p prv p_ring(2) q_ring(2) q_p by auto
      have "nextAddress (proposers s' ?y) = q"
      proof (cases "?y = n")
        case True
        then show ?thesis
          using q_ring(2) prv(2) by (simp add: at_n)
      next
        case False
        then show ?thesis
          using q_ring(2) y by (simp add: at_other)
      qed
      then show ?thesis
        using prv this_q y n_live n_p by (simp add: at_n at_q)
    next
      case other
      let ?x = "nextAddress (proposers s a)"
      let ?y = "previousAddress (proposers s a)"
      have same: "proposers s' a = proposers s a"
        using other a by (simp add: at_other)
      have x: "?x \<in> live" "?x \<noteq> p" "?x \<noteq> n"
        using a_ring(2) next_p other a_ring(4) p_ring(1) a by auto
      have y: "?y \<in> live" "?y \<noteq> p" "?y \<noteq> q"
        using a_ring(3) prev_p other a_ring(5) p_ring(2) a by auto
      have "previousAddress (proposers s' ?x) = a"
      proof (cases "?x = q")
        case True
        with x(3) have "n \<noteq> q" by auto
        then show ?thesis
          using True a_ring(4) by (simp add: at_q)
      next
        case False
        then show ?thesis
          using a_ring(4) x by (simp add: at_other)
      qed
      moreover have "nextAddress (proposers s' ?y) = a"
      proof (cases "?y = n")
        case True
        with y(3) have "n \<noteq> q" by auto
        then show ?thesis
          using True a_ring(5) by (simp add: at_n)
      next
        case False
        then show ?thesis
          using a_ring(5) y by (simp add: at_other)
      qed
      ultimately show ?thesis
        using a_ring(1) x y by (simp add: same)
    qed
  qed
  from run deleted next_q prev_n cur this_cur n_live n_p ring' show ?thesis
    unfolding q_def n_def by auto
qed

lemma removeProposer_sole:
  assumes reg: "onlyRegistered m s"
    and nxt: "nextAddress (proposers s p) = p"
    and prv: "previousAddress (proposers s p) = p"
  shows "\<exists>s'. removeProposer m p s = Inr s' \<and>
     proposers s' = (proposers s)(p := zeroLinkedAddress) \<and>
     proposers s' p = zeroLinkedAddress \<and>
     currentProposer s' = zeroLinkedAddress \<and>
     thisAddress (currentProposer s') = 0"
proof -
  have zero: "zeroLinkedAddress\<lparr>nextAddress := 0\<rparr> = zeroLinkedAddress"
    "zeroLinkedAddress\<lparr>previousAddress := 0\<rparr> = zeroLinkedAddress"
    "thisAddress zeroLinkedAddress = 0"
    by (simp_all add: zeroLinkedAddress_def)
  show ?thesis
    using reg by (simp add: removeProposer_def Let_def nxt prv zero)
qed

lemma removeProposer_sole_linked:
  assumes reg: "onlyRegistered m s"
    and ring: "linked live (proposers s)"
    and p: "p \<in> live"
    and nxt: "nextAddress (proposers s p) = p"
  shows "previousAddress (proposers s p) = p"
    and "\<exists>s'. removeProposer m p s = Inr s' \<and>
       proposers s' p = zeroLinkedAddress \<and>
       currentProposer s' = zeroLinkedAddress \<and>
       linked (live - {p}) (proposers s')"
proof -
  from ring p have "previousAddress (proposers s (nextAddress (proposers s p))) = p"
    by (simp add: linked_def)
  then show prv: "previousAddress (proposers s p) = p"
    by (simp add: nxt)
  from removeProposer_sole [OF reg nxt prv] obtain s'
    where run: "removeProposer m p s = Inr s'"
      and ps: "proposers s' = (proposers s)(p := zeroLinkedAddress)"
      and deleted: "proposers s' p = zeroLinkedAddress"
      and cur: "currentProposer s' = zeroLinkedAddress"
    by blast
  have "linked (live - {p}) (proposers s')"
    unfolding linked_def
  proof (intro ballI)
    fix a
    assume "a \<in> live - {p}"
    then have a: "a \<in> live" "a \<noteq> p"
      by simp_all
    from ring a(1) have a_ring: "thisAddress (proposers s a) = a"
      "nextAddress (proposers s a) \<in> live" "previousAddress (proposers s a) \<in> live"
      "previousAddress (proposers s (nextAddress (proposers s a))) = a"
      "nextAddress (proposers s (previousAddress (proposers s a))) = a"
      by (simp_all add: linked_def)
    have x: "nextAddress (proposers s a) \<noteq> p"
      using a_ring(4) prv a(2) by auto
    have y: "previousAddress (proposers s a) \<noteq> p"
      using a_ring(5) nxt a(2) by auto
    show "thisAddress (proposers s' a) = a \<and>
       nextAddress (proposers s' a) \<in> live - {p} \<and>
       previousAddress (proposers s' a) \<in> live - {p} \<and>
       previousAddress (proposers s' (nextAddress (proposers s' a))) = a \<and>
       nextAddress (proposers s' (previousAddress (proposers s' a))) = a"
      using a a_ring x y by (simp add: ps)
  qed
  with run deleted cur show "\<exists>s'. removeProposer m p s = Inr s' \<and>
       proposers s' p = zeroLinkedAddress \<and>
       currentProposer s' = zeroLinkedAddress \<and>
       linked (live - {p}) (proposers s')"
    by blast
qed

text \<open>
  C9, as stated, fails: after the only proposer is removed (here while it is the current
  one) its record is deleted and the current proposer is the zero record, so no proposer
  is current.
\<close>

theorem removeProposer_sole_counterexample:
  "thisAddress (currentProposer exampleState) = 1 \<and>
   \<not> isl (removeProposer (exampleMsg\<lparr>msg_sender := 0xA1\<rparr>) 1 exampleState) \<and>
   proposers (projr (removeProposer (exampleMsg\<lparr>msg_sender := 0xA1\<rparr>) 1 exampleState)) 1
     = zeroLinkedAddress \<and>
   currentProposer (projr (removeProposer (exampleMsg\<lparr>msg_sender := 0xA1\<rparr>) 1 exampleState))
     = zeroLinkedAddress \<and>
   thisAddress (currentProposer
      (projr (removeProposer (exampleMsg\<lparr>msg_sender := 0xA1\<rparr>) 1 exampleState))) = 0"
  by (simp add: removeProposer_def onlyRegistered_def exampleMsg_def exampleState_def
      exampleProposer_def zeroLinkedAddress_def Let_def)

text \<open>
  C9, amended. Removing a proposer is permitted whether or not it is the current one: a
  call from a registered contract never reverts. When the proposer is live in a ring with
  another member, the call deletes its record, makes its previous and next neighbours
  point at each other, and makes the next neighbour, a live proposer, the current proposer;
  the remaining proposers are linked as before. When the proposer is the only member of
  its ring (its next and previous addresses are its own), the call deletes its record and
  leaves the current proposer as the zero record, every other record being as before.
\<close>

theorem removeProposer_relinks:
  assumes reg: "onlyRegistered m s"
  shows "(\<exists>s'. removeProposer m p s = Inr s') \<and>
   (linked live (proposers s) \<and> p \<in> live \<and> nextAddress (proposers s p) \<noteq> p \<longrightarrow>
      (\<exists>s'. removeProposer m p s = Inr s' \<and>
         proposers s' p = zeroLinkedAddress \<and>
         nextAddress (proposers s' (previousAddress (proposers s p)))
           = nextAddress (proposers s p) \<and>
         previousAddress (proposers s' (nextAddress (proposers s p)))
           = previousAddress (proposers s p) \<and>
         currentProposer s' = proposers s' (nextAddress (proposers s p)) \<and>
         thisAddress (currentProposer s') = nextAddress (proposers s p) \<and>
         thisAddress (currentProposer s') \<in> live - {p} \<and>
         linked (live - {p}) (proposers s'))) \<and>
   (nextAddress (proposers s p) = p \<and> previousAddress (proposers s p) = p \<longrightarrow>
      (\<exists>s'. removeProposer m p s = Inr s' \<and>
         proposers s' = (proposers s)(p := zeroLinkedAddress) \<and>
         proposers s' p = zeroLinkedAddress \<and>
         currentProposer s' = zeroLinkedAddress \<and>
         thisAddress (currentProposer s') = 0)) \<and>
   (linked live (proposers s) \<and> p \<in> live \<and> nextAddress (proposers s p) = p \<longrightarrow>
      previousAddress (proposers s p) = p \<and>
      (\<exists>s'. removeProposer m p s = Inr s' \<and>
         proposers s' p = zeroLinkedAddress \<and>
         currentProposer s' = zeroLinkedAddress \<and>
         linked (live - {p}) (proposers s')))"
proof (intro conjI impI)
  show "\<exists>s'. removeProposer m p s = Inr s'"
    using reg by (simp add: removeProposer_def Let_def)
next
  assume "linked live (proposers s) \<and> p \<in> live \<and> nextAddress (proposers s p) \<noteq> p"
  then show "\<exists>s'. removeProposer m p s = Inr s' \<and>
         proposers s' p = zeroLinkedAddress \<and>
         nextAddress (proposers s' (previousAddress (proposers s p)))
           = nextAddress (proposers s p) \<and>
         previousAddress (proposers s' (nextAddress (proposers s p)))
           = previousAddress (proposers s p) \<and>
         currentProposer s' = proposers s' (nextAddress (proposers s p)) \<and>
         thisAddress (currentProposer s') = nextAddress (proposers s p) \<and>
         thisAddress (currentProposer s') \<in> live - {p} \<and>
         linked (live - {p}) (proposers s')"
    using removeProposer_ring [OF reg, of live p] by blast
next
  assume "nextAddress (proposers s p) = p \<and> previousAddress (proposers s p) = p"
  then show "\<exists>s'. removeProposer m p s = Inr s' \<and>
         proposers s' = (proposers s)(p := zeroLinkedAddress) \<and>
         proposers s' p = zeroLinkedAddress \<and>
         currentProposer s' = zeroLinkedAddress \<and>
         thisAddress (currentProposer s') = 0"
    using removeProposer_sole [OF reg, of p] by blast
next
  assume sole: "linked live (proposers s) \<and> p \<in> live \<and> nextAddress (proposers s p) = p"
  then show "previousAddress (proposers s p) = p"
    using removeProposer_sole_linked(1) [OF reg, of live p] by blast
  from sole show "\<exists>s'. removeProposer m p s = Inr s' \<and>
         proposers s' p = zeroLinkedAddress \<and>
         currentProposer s' = zeroLinkedAddress \<and>
         linked (live - {p}) (proposers s')"
    using removeProposer_sole_linked(2) [OF reg, of live p] by blast
qed

theorem removeProposer_relinks_witness:
  "onlyRegistered (exampleMsg\<lparr>msg_sender := 0xA1\<rparr>) threeProposers \<and>
   linked {1, 2, 3} (proposers threeProposers) \<and>
   thisAddress (currentProposer threeProposers) = 1 \<and>
   nextAddress (proposers threeProposers 1) \<noteq> 1 \<and>
   (\<exists>s'. removeProposer (exampleMsg\<lparr>msg_sender := 0xA1\<rparr>) 1 threeProposers = Inr s' \<and>
      proposers s' 1 = zeroLinkedAddress \<and>
      currentProposer s' = exampleProposer 2 3 3 \<and>
      proposers s' 3 = exampleProposer 3 2 2 \<and>
      linked ({1, 2, 3} - {1}) (proposers s')) \<and>
   onlyRegistered (exampleMsg\<lparr>msg_sender := 0xA1\<rparr>) exampleState \<and>
   nextAddress (proposers exampleState 1) = 1 \<and>
   previousAddress (proposers exampleState 1) = 1 \<and>
   (\<exists>s'. removeProposer (exampleMsg\<lparr>msg_sender := 0xA1\<rparr>) 1 exampleState = Inr s' \<and>
      proposers s' 1 = zeroLinkedAddress \<and>
      currentProposer s' = zeroLinkedAddress)"
proof -
  let ?m = "exampleMsg\<lparr>msg_sender := 0xA1\<rparr>"
  have reg: "onlyRegistered ?m threeProposers"
    by (simp add: onlyRegistered_def exampleMsg_def threeProposers_def exampleState_def)
  have ring: "linked {1, 2, 3} (proposers threeProposers)"
    by (simp add: linked_def threeProposers_def exampleProposer_def)
  have cur: "thisAddress (currentProposer threeProposers) = 1"
    by (simp add: threeProposers_def exampleProposer_def)
  have other: "nextAddress (proposers threeProposers 1) \<noteq> 1"
    by (simp add: threeProposers_def exampleProposer_def)
  from removeProposer_relinks [OF reg, of 1 "{1, 2, 3}"] ring other
  obtain s' where run: "removeProposer ?m 1 threeProposers = Inr s'"
    and deleted: "proposers s' 1 = zeroLinkedAddress"
    and ring': "linked ({1, 2, 3} - {1}) (proposers s')"
    by auto
  have "currentProposer (projr (removeProposer ?m 1 threeProposers)) = exampleProposer 2 3 3 \<and>
      proposers (projr (removeProposer ?m 1 threeProposers)) 3 = exampleProposer 3 2 2"
    by (simp add: removeProposer_def onlyRegistered_def exampleMsg_def Let_def
        threeProposers_def exampleProposer_def exampleState_def zeroLinkedAddress_def)
  with run have moved: "currentProposer s' = exampleProposer 2 3 3 \<and>
      proposers s' 3 = exampleProposer 3 2 2"
    by simp
  have reg1: "onlyRegistered ?m exampleState"
    by (simp add: onlyRegistered_def exampleMsg_def exampleState_def)
  have nxt: "nextAddress (proposers exampleState 1) = 1"
    and prv: "previousAddress (proposers exampleState 1) = 1"
    by (simp_all add: exampleState_def exampleProposer_def)
  from removeProposer_relinks [OF reg1, of 1 "{1}"] nxt prv
  have sole: "\<exists>s'. removeProposer ?m 1 exampleState = Inr s' \<and>
      proposers s' 1 = zeroLinkedAddress \<and> currentProposer s' = zeroLinkedAddress"
    by blast
  from reg ring cur other run deleted moved ring' reg1 nxt prv sole show ?thesis
    by blast
qed

section \<open>Properties of the Transaction class\<close>

lemma keccak_fields:
  "keccak L (transaction\<lparr>transactionHash := h\<rparr>) = keccak L transaction"
  "keccak L (transaction\<lparr>mempool := f\<rparr>) = keccak L transaction"
  "keccak L (transaction\<lparr>blockNumber := n\<rparr>) = keccak L transaction"
  "keccak L (transaction\<lparr>transactionHashL1 := h\<rparr>) = keccak L transaction"
  by (simp_all add: keccak_def cong: option.case_cong)

lemma checkHash_mempool:
  "checkHash L (transaction\<lparr>mempool := f\<rparr>) = checkHash L transaction"
  by (simp add: checkHash_def keccak_fields cong: sum.case_cong)

lemma constructor_Inr:
  assumes "Transaction_constructor L a = Inr tx"
  shows "\<exists>flatProof' preimage.
     generalise_all_hex L (preimageOf a flatProof') = Some preimage \<and>
     keccak L preimage = Inr (transactionHash tx) \<and>
     tx = preimage\<lparr>transactionHash := transactionHash tx\<rparr>"
  using assms
  by (fastforce simp: Transaction_constructor_def split: option.splits if_splits sum.splits)

text \<open>
  C10. Whenever the constructor returns, the record it returns satisfies
  \<^verbatim>\<open>Transaction.checkHash\<close>: its \<^verbatim>\<open>transactionHash\<close> is the digest recomputed from its own
  fields.
\<close>

theorem constructor_checkHash:
  assumes "Transaction_constructor L a = Inr tx"
  shows "checkHash L tx = Inr True"
proof -
  from constructor_Inr [OF assms] obtain preimage where
    hash: "keccak L preimage = Inr (transactionHash tx)"
    and tx: "tx = preimage\<lparr>transactionHash := transactionHash tx\<rparr>"
    by blast
  have "keccak L tx = keccak L preimage"
    by (subst tx) (rule keccak_fields(1))
  with hash show ?thesis
    by (simp add: checkHash_def)
qed

lemma exampleConstructor:
  "Transaction_constructor exampleLib exampleArgs =
     Inr (exampleTransactionObject ''0x;1;1;;11111,,;;a;;c,,;n,,;,,;,,,,;'')"
  by (simp add: Transaction_constructor_def exampleLib_def exampleArgs_def preimageOf_def
      generalise_all_hex_def hex_def padArray_def orZero_def TOKEN_TYPES_def keccak_def
      arrayEquality_def exampleTransactionObject_def eval_nat_numeral)

theorem constructor_checkHash_witness:
  "Transaction_constructor exampleLib exampleArgs =
     Inr (exampleTransactionObject ''0x;1;1;;11111,,;;a;;c,,;n,,;,,;,,,,;'') \<and>
   checkHash exampleLib (exampleTransactionObject ''0x;1;1;;11111,,;;a;;c,,;n,,;,,;,,,,;'')
     = Inr True"
  using constructor_checkHash [OF exampleConstructor] exampleConstructor by simp

lemma hexAll_length: "hexAll L vs = Some hs \<Longrightarrow> length hs = length vs"
  by (induction vs arbitrary: hs) (auto split: option.splits)

lemma generalise_arrays:
  assumes "generalise_all_hex L p = Some q"
  shows "hexAll L (TransactionObject.commitments p) = Some (TransactionObject.commitments q)"
    "hexAll L (TransactionObject.nullifiers p) = Some (TransactionObject.nullifiers q)"
    "hexAll L (TransactionObject.historicRootBlockNumberL2 p)
       = Some (TransactionObject.historicRootBlockNumberL2 q)"
  using assms by (auto simp: generalise_all_hex_def bind_eq_Some_conv)

lemma padArray_length: "n \<le> length (padArray A z n)"
  by (auto simp: padArray_def split: option.splits)

lemma keccak_Inr:
  assumes "keccak L tx = Inr h"
  shows "\<exists>proof' encodedTransaction.
     (if arrayEquality (TransactionObject.proof tx)
           [Num 0, Num 0, Num 0, Num 0, Num 0, Num 0, Num 0, Num 0]
      then proof' = [Num 0, Num 0, Num 0, Num 0]
      else compressProof L (TransactionObject.proof tx) = Some proof') \<and>
     encodeParameters L
       [Scalar (TransactionObject.value tx), Scalar (TransactionObject.fee tx),
        Scalar (TransactionObject.transactionType tx), Scalar (TransactionObject.tokenType tx),
        Array (TransactionObject.historicRootBlockNumberL2 tx),
        Scalar (TransactionObject.tokenId tx), Scalar (TransactionObject.ercAddress tx),
        Scalar (TransactionObject.recipientAddress tx),
        Array (TransactionObject.commitments tx), Array (TransactionObject.nullifiers tx),
        Array (TransactionObject.compressedSecrets tx), Array proof'] = Some encodedTransaction \<and>
     h = Str (soliditySha3 L encodedTransaction)"
  using assms by (fastforce simp: keccak_def split: option.splits if_splits)

lemma submitTransaction_hash_mismatch:
  assumes "checkHash L tx \<noteq> Inr True"
  shows "fst (submitTransaction (checkTransaction L checks) tx fromBP db) \<noteq> None"
    and "\<not> fromBP \<Longrightarrow> snd (submitTransaction (checkTransaction L checks) tx fromBP db) = db"
proof -
  have rejected: "checkTransaction L checks tx' db' \<noteq> None"
    if "tx' = tx \<or> tx' = tx\<lparr>mempool := Some False\<rparr>" for tx' db'
  proof -
    from that have "checkHash L tx' = checkHash L tx"
      by (auto simp: checkHash_mempool)
    with assms show ?thesis
      by (auto simp: checkTransaction_def split: sum.splits)
  qed
  have copy: "tx' = tx \<or> tx' = tx\<lparr>mempool := Some False\<rparr>"
    if "checkAlreadyInBlock db tx = Inr tx'" for tx'
    using that by (auto simp: checkAlreadyInBlock_def split: list.splits if_splits)
  have result: "\<exists>err. submitTransaction (checkTransaction L checks) tx fromBP db
      = (Some err, if fromBP \<and> \<not> isl (checkAlreadyInBlock db tx)
                   then saveTransaction (projr (checkAlreadyInBlock db tx)) db else db)"
  proof (cases "checkAlreadyInBlock db tx")
    case (Inl e)
    then show ?thesis
      by (simp add: submitTransaction_def)
  next
    case (Inr tx')
    let ?db1 = "if fromBP then saveTransaction tx' db else db"
    from rejected [OF copy [OF Inr], of ?db1]
    obtain err where "checkTransaction L checks tx' ?db1 = Some err"
      by auto
    then show ?thesis
      by (simp add: submitTransaction_def Inr Let_def)
  qed
  then show "fst (submitTransaction (checkTransaction L checks) tx fromBP db) \<noteq> None"
    by auto
  from result show "snd (submitTransaction (checkTransaction L checks) tx fromBP db) = db"
    if "\<not> fromBP"
    using that by auto
qed

text \<open>
  C4. The transaction hash is the digest of the encoding of the tuple (value, fee,
  transactionType, tokenType, historicRootBlockNumberL2, tokenId, ercAddress,
  recipientAddress, commitments, nullifiers, compressedSecrets, proof) in that order, the
  proof compressed (or four zeros for the absent proof). The constructor pads the
  commitments, nullifiers and historic roots with zeros to the declared arities before
  hashing. \<^verbatim>\<open>checkHash\<close> recomputes the hash from the fields and compares it with the
  submitted \<^verbatim>\<open>transactionHash\<close>, and admission (with the validation modelled from the
  specification) rejects a transaction whose hash does not match; unless the transaction
  comes from a block proposer, nothing is persisted then.
\<close>

theorem transaction_hash_recomputed:
  "(keccak L tx = Inr h \<longrightarrow>
      (\<exists>proof' encodedTransaction.
         (if arrayEquality (TransactionObject.proof tx)
               [Num 0, Num 0, Num 0, Num 0, Num 0, Num 0, Num 0, Num 0]
          then proof' = [Num 0, Num 0, Num 0, Num 0]
          else compressProof L (TransactionObject.proof tx) = Some proof') \<and>
         encodeParameters L
           [Scalar (TransactionObject.value tx), Scalar (TransactionObject.fee tx),
            Scalar (TransactionObject.transactionType tx),
            Scalar (TransactionObject.tokenType tx),
            Array (TransactionObject.historicRootBlockNumberL2 tx),
            Scalar (TransactionObject.tokenId tx), Scalar (TransactionObject.ercAddress tx),
            Scalar (TransactionObject.recipientAddress tx),
            Array (TransactionObject.commitments tx), Array (TransactionObject.nullifiers tx),
            Array (TransactionObject.compressedSecrets tx), Array proof']
           = Some encodedTransaction \<and>
         h = Str (soliditySha3 L encodedTransaction))) \<and>
   (Transaction_constructor L a = Inr built \<longrightarrow>
      hexAll L (padArray (Args.commitments a) (Num 0) (numberCommitments a))
        = Some (TransactionObject.commitments built) \<and>
      hexAll L (padArray (Args.nullifiers a) (Num 0) (numberNullifiers a))
        = Some (TransactionObject.nullifiers built) \<and>
      hexAll L (padArray (Args.historicRootBlockNumberL2 a) (Num 0) (numberNullifiers a))
        = Some (TransactionObject.historicRootBlockNumberL2 built) \<and>
      numberCommitments a \<le> length (TransactionObject.commitments built) \<and>
      numberNullifiers a \<le> length (TransactionObject.nullifiers built) \<and>
      numberNullifiers a \<le> length (TransactionObject.historicRootBlockNumberL2 built) \<and>
      keccak L built = Inr (transactionHash built)) \<and>
   padArray (Some xs) z n = xs @ replicate (n - length xs) z \<and>
   padArray None z n = replicate n z \<and>
   (checkHash L tx = Inr ok \<longrightarrow> (ok \<longleftrightarrow> keccak L tx = Inr (transactionHash tx))) \<and>
   (checkHash L tx \<noteq> Inr True \<longrightarrow>
      fst (submitTransaction (checkTransaction L checks) tx fromBP db) \<noteq> None \<and>
      (\<not> fromBP \<longrightarrow> snd (submitTransaction (checkTransaction L checks) tx fromBP db) = db))"
proof (intro conjI impI)
  assume "keccak L tx = Inr h"
  then show "\<exists>proof' encodedTransaction.
         (if arrayEquality (TransactionObject.proof tx)
               [Num 0, Num 0, Num 0, Num 0, Num 0, Num 0, Num 0, Num 0]
          then proof' = [Num 0, Num 0, Num 0, Num 0]
          else compressProof L (TransactionObject.proof tx) = Some proof') \<and>
         encodeParameters L
           [Scalar (TransactionObject.value tx), Scalar (TransactionObject.fee tx),
            Scalar (TransactionObject.transactionType tx),
            Scalar (TransactionObject.tokenType tx),
            Array (TransactionObject.historicRootBlockNumberL2 tx),
            Scalar (TransactionObject.tokenId tx), Scalar (TransactionObject.ercAddress tx),
            Scalar (TransactionObject.recipientAddress tx),
            Array (TransactionObject.commitments tx), Array (TransactionObject.nullifiers tx),
            Array (TransactionObject.compressedSecrets tx), Array proof']
           = Some encodedTransaction \<and>
         h = Str (soliditySha3 L encodedTransaction)"
    by (rule keccak_Inr)
next
  assume built: "Transaction_constructor L a = Inr built"
  from constructor_Inr [OF built] obtain flatProof' preimage where
    gen: "generalise_all_hex L (preimageOf a flatProof') = Some preimage"
    and hash: "keccak L preimage = Inr (transactionHash built)"
    and eq: "built = preimage\<lparr>transactionHash := transactionHash built\<rparr>"
    by blast
  have fields: "TransactionObject.commitments built = TransactionObject.commitments preimage"
    "TransactionObject.nullifiers built = TransactionObject.nullifiers preimage"
    "TransactionObject.historicRootBlockNumberL2 built
       = TransactionObject.historicRootBlockNumberL2 preimage"
    by (subst eq, simp)+
  show c: "hexAll L (padArray (Args.commitments a) (Num 0) (numberCommitments a))
        = Some (TransactionObject.commitments built)"
    using generalise_arrays(1) [OF gen] by (simp add: fields preimageOf_def)
  show n: "hexAll L (padArray (Args.nullifiers a) (Num 0) (numberNullifiers a))
        = Some (TransactionObject.nullifiers built)"
    using generalise_arrays(2) [OF gen] by (simp add: fields preimageOf_def)
  show r: "hexAll L (padArray (Args.historicRootBlockNumberL2 a) (Num 0) (numberNullifiers a))
        = Some (TransactionObject.historicRootBlockNumberL2 built)"
    using generalise_arrays(3) [OF gen] by (simp add: fields preimageOf_def)
  show "numberCommitments a \<le> length (TransactionObject.commitments built)"
    using hexAll_length [OF c] padArray_length [of "numberCommitments a" "Args.commitments a" "Num 0"]
    by simp
  show "numberNullifiers a \<le> length (TransactionObject.nullifiers built)"
    using hexAll_length [OF n] padArray_length [of "numberNullifiers a" "Args.nullifiers a" "Num 0"]
    by simp
  show "numberNullifiers a \<le> length (TransactionObject.historicRootBlockNumberL2 built)"
    using hexAll_length [OF r]
      padArray_length [of "numberNullifiers a" "Args.historicRootBlockNumberL2 a" "Num 0"]
    by simp
  have "keccak L built = keccak L preimage"
    by (subst eq) (rule keccak_fields(1))
  with hash show "keccak L built = Inr (transactionHash built)"
    by simp
next
  show "padArray (Some xs) z n = xs @ replicate (n - length xs) z"
    by (simp add: padArray_def)
  show "padArray None z n = replicate n z"
    by (simp add: padArray_def)
next
  assume "checkHash L tx = Inr ok"
  then show "ok \<longleftrightarrow> keccak L tx = Inr (transactionHash tx)"
    by (auto simp: checkHash_def split: sum.splits)
next
  assume mismatch: "checkHash L tx \<noteq> Inr True"
  show "fst (submitTransaction (checkTransaction L checks) tx fromBP db) \<noteq> None"
    by (rule submitTransaction_hash_mismatch(1) [OF mismatch])
  show "snd (submitTransaction (checkTransaction L checks) tx fromBP db) = db" if "\<not> fromBP"
    by (rule submitTransaction_hash_mismatch(2) [OF mismatch that])
qed

theorem transaction_hash_recomputed_witness:
  "Transaction_constructor exampleLib exampleArgs =
     Inr (exampleTransactionObject ''0x;1;1;;11111,,;;a;;c,,;n,,;,,;,,,,;'') \<and>
   TransactionObject.commitments (exampleTransactionObject ''0x;1;1;;11111,,;;a;;c,,;n,,;,,;,,,,;'')
     = [Str ''c'', Str []] \<and>
   keccak exampleLib (exampleTransactionObject ''0x;1;1;;11111,,;;a;;c,,;n,,;,,;,,,,;'')
     = Inr (Str ''0x;1;1;;11111,,;;a;;c,,;n,,;,,;,,,,;'') \<and>
   checkHash exampleLib (exampleTransactionObject ''forged'') = Inr False \<and>
   submitTransaction (checkTransaction exampleLib acceptAll) (exampleTransactionObject ''forged'')
     False emptyDb
     = (Some (TransactionError ''The transaction hash did not match'' 0), emptyDb)"
proof -
  let ?good = "exampleTransactionObject ''0x;1;1;;11111,,;;a;;c,,;n,,;,,;,,,,;''"
  let ?forged = "exampleTransactionObject ''forged''"
  note inst = transaction_hash_recomputed [where L = exampleLib and a = exampleArgs
      and built = ?good and tx = ?forged and ok = False and checks = acceptAll and fromBP = False
      and db = emptyDb and h = Undefined and xs = "[] :: val list" and z = Undefined and n = 0]
  have forged: "checkHash exampleLib ?forged = Inr False"
    by (simp add: checkHash_def keccak_def exampleLib_def exampleTransactionObject_def
        arrayEquality_def)
  from inst exampleConstructor have good: "keccak exampleLib ?good = Inr (transactionHash ?good)"
    by simp
  from inst forged
  have rejected: "fst (submitTransaction (checkTransaction exampleLib acceptAll) ?forged False emptyDb)
      \<noteq> None"
    and kept: "snd (submitTransaction (checkTransaction exampleLib acceptAll) ?forged False emptyDb)
      = emptyDb"
    by auto
  have run: "submitTransaction (checkTransaction exampleLib acceptAll) ?forged False emptyDb
     = (Some (TransactionError ''The transaction hash did not match'' 0), emptyDb)"
    using forged
    by (simp add: submitTransaction_def checkAlreadyInBlock_def getBlockByTransactionHash_def
        emptyDb_def checkTransaction_def)
  from good have "keccak exampleLib ?good = Inr (Str ''0x;1;1;;11111,,;;a;;c,,;n,,;,,;,,,,;'')"
    by (simp add: exampleTransactionObject_def)
  moreover have "TransactionObject.commitments ?good = [Str ''c'', Str []]"
    by (simp add: exampleTransactionObject_def)
  ultimately show ?thesis
    using exampleConstructor forged run by simp
qed

section \<open>Properties of the transaction-submitted handler\<close>

text \<open>
  C2. A transaction that appears in no stored block is passed on unchanged. A transaction
  that appears in a stored block and whose stored record carries a block number (a value
  JavaScript takes as true: a number other than zero, a string other than the empty one)
  fails with the replay error, and the handler ignores it: the store is unchanged. A
  transaction that appears in a stored block and whose stored record has no block number
  (the number is undefined or null, or no record is stored) continues with the
  \<^verbatim>\<open>mempool\<close> flag of the incoming copy set to false: that copy is validated and it is
  the copy persisted.
\<close>

theorem replay_and_remine:
  "(n \<noteq> 0 \<longrightarrow> truthy (Num n)) \<and> (str \<noteq> [] \<longrightarrow> truthy (Str str)) \<and>
   \<not> truthy Undefined \<and> \<not> truthy Null \<and>
   (getBlockByTransactionHash db (transactionHash tx) = [] \<longrightarrow>
      checkAlreadyInBlock db tx = Inr tx \<and>
      fst (submitTransaction chk tx fromBP db)
        = chk tx (if fromBP then saveTransaction tx db else db)) \<and>
   (getBlockByTransactionHash db (transactionHash tx) \<noteq> [] \<and>
    getTransactionByTransactionHash db (transactionHash tx) = Some stored \<and>
    truthy (blockNumber stored) \<longrightarrow>
      checkAlreadyInBlock db tx
        = Inl (TransactionError ''This transaction has been processed previously'' 6) \<and>
      submitTransaction chk tx fromBP db
        = (Some (TransactionError ''This transaction has been processed previously'' 6), db)) \<and>
   (getBlockByTransactionHash db (transactionHash tx) \<noteq> [] \<and>
    (case getTransactionByTransactionHash db (transactionHash tx) of
       None \<Rightarrow> True
     | Some stored' \<Rightarrow> blockNumber stored' = Undefined \<or> blockNumber stored' = Null) \<longrightarrow>
      checkAlreadyInBlock db tx = Inr (tx\<lparr>mempool := Some False\<rparr>) \<and>
      fst (submitTransaction chk tx fromBP db)
        = chk (tx\<lparr>mempool := Some False\<rparr>)
            (if fromBP then saveTransaction (tx\<lparr>mempool := Some False\<rparr>) db else db) \<and>
      (fst (submitTransaction chk tx fromBP db) = None \<longrightarrow>
         transactions (snd (submitTransaction chk tx fromBP db)) (transactionHash tx)
           = Some (tx\<lparr>mempool := Some False\<rparr>)))"
proof (intro conjI impI)
  show "truthy (Num n)" if "n \<noteq> 0"
    using that by simp
  show "truthy (Str str)" if "str \<noteq> []"
    using that by simp
  show "\<not> truthy Undefined" "\<not> truthy Null"
    by simp_all
next
  assume none: "getBlockByTransactionHash db (transactionHash tx) = []"
  then show same: "checkAlreadyInBlock db tx = Inr tx"
    by (simp add: checkAlreadyInBlock_def)
  show "fst (submitTransaction chk tx fromBP db)
      = chk tx (if fromBP then saveTransaction tx db else db)"
    by (simp add: submitTransaction_def same Let_def split: option.splits)
next
  assume "getBlockByTransactionHash db (transactionHash tx) \<noteq> [] \<and>
    getTransactionByTransactionHash db (transactionHash tx) = Some stored \<and>
    truthy (blockNumber stored)"
  then show replay: "checkAlreadyInBlock db tx
      = Inl (TransactionError ''This transaction has been processed previously'' 6)"
    by (simp add: checkAlreadyInBlock_def split: list.splits)
  show "submitTransaction chk tx fromBP db
      = (Some (TransactionError ''This transaction has been processed previously'' 6), db)"
    by (simp add: submitTransaction_def replay)
next
  assume remine: "getBlockByTransactionHash db (transactionHash tx) \<noteq> [] \<and>
    (case getTransactionByTransactionHash db (transactionHash tx) of
       None \<Rightarrow> True
     | Some stored' \<Rightarrow> blockNumber stored' = Undefined \<or> blockNumber stored' = Null)"
  then show copy: "checkAlreadyInBlock db tx = Inr (tx\<lparr>mempool := Some False\<rparr>)"
    by (auto simp: checkAlreadyInBlock_def split: list.splits option.splits)
  show "fst (submitTransaction chk tx fromBP db)
      = chk (tx\<lparr>mempool := Some False\<rparr>)
          (if fromBP then saveTransaction (tx\<lparr>mempool := Some False\<rparr>) db else db)"
    by (simp add: submitTransaction_def copy Let_def split: option.splits)
  show "transactions (snd (submitTransaction chk tx fromBP db)) (transactionHash tx)
      = Some (tx\<lparr>mempool := Some False\<rparr>)"
    if "fst (submitTransaction chk tx fromBP db) = None"
    using that
    by (auto simp: submitTransaction_def copy Let_def saveTransaction_def split: option.splits)
qed

theorem replay_and_remine_witness:
  "getBlockByTransactionHash (minedDb ''h'' (Num 7)) (Str ''h'') \<noteq> [] \<and>
   submitTransaction acceptAll (exampleTransactionObject ''h'') False (minedDb ''h'' (Num 7))
     = (Some (TransactionError ''This transaction has been processed previously'' 6),
        minedDb ''h'' (Num 7)) \<and>
   checkAlreadyInBlock (minedDb ''h'' Undefined) (exampleTransactionObject ''h'')
     = Inr ((exampleTransactionObject ''h'')\<lparr>mempool := Some False\<rparr>) \<and>
   checkAlreadyInBlock emptyDb (exampleTransactionObject ''h'') = Inr (exampleTransactionObject ''h'')"
proof -
  let ?tx = "exampleTransactionObject ''h''"
  have hash: "transactionHash ?tx = Str ''h''"
    by (simp add: exampleTransactionObject_def)
  have inBlock: "getBlockByTransactionHash (minedDb ''h'' v) (Str ''h'') \<noteq> []" for v
    by (simp add: getBlockByTransactionHash_def minedDb_def)
  have stored: "getTransactionByTransactionHash (minedDb ''h'' v) (Str ''h'')
      = Some (?tx\<lparr>blockNumber := v\<rparr>)" for v
    by (simp add: getTransactionByTransactionHash_def minedDb_def)
  have noBlock: "getBlockByTransactionHash emptyDb (Str ''h'') = []"
    by (simp add: getBlockByTransactionHash_def emptyDb_def)
  from replay_and_remine [where db = "minedDb ''h'' (Num 7)" and tx = ?tx
      and stored = "?tx\<lparr>blockNumber := Num 7\<rparr>" and chk = acceptAll and fromBP = False
      and n = 7 and str = "''h''"]
    inBlock [of "Num 7"] stored [of "Num 7"]
  have replay: "submitTransaction acceptAll ?tx False (minedDb ''h'' (Num 7))
     = (Some (TransactionError ''This transaction has been processed previously'' 6),
        minedDb ''h'' (Num 7))"
    by (simp add: hash)
  from replay_and_remine [where db = "minedDb ''h'' Undefined" and tx = ?tx
      and chk = acceptAll and fromBP = False and n = 7 and str = "''h''"]
    inBlock [of Undefined] stored [of Undefined]
  have remine: "checkAlreadyInBlock (minedDb ''h'' Undefined) ?tx
      = Inr (?tx\<lparr>mempool := Some False\<rparr>)"
    by (simp add: hash)
  from replay_and_remine [where db = emptyDb and tx = ?tx
      and chk = acceptAll and fromBP = False and n = 7 and str = "''h''"] noBlock
  have fresh: "checkAlreadyInBlock emptyDb ?tx = Inr ?tx"
    by (simp add: hash)
  from inBlock [of "Num 7"] replay remine fresh show ?thesis
    by simp
qed

text \<open>
  C5, as stated, fails in both directions. A transaction from an event of the chain that
  validation rejects is not persisted: the event carries no \<^verbatim>\<open>fromBlockProposer\<close>, so
  validation runs first. An off-chain transaction that carries \<^verbatim>\<open>fromBlockProposer\<close> is
  persisted although validation rejects it.
\<close>

theorem persistence_by_origin_counterexample:
  "offchain exampleEvent = None \<and>
   transactionSubmittedEventHandler rejectAll exampleCalldata False exampleEvent emptyDb
     = (Submitted (Some (TransactionError ''rejected'' 1)), emptyDb) \<and>
   transactions emptyDb (Str ''h'') = None \<and>
   fst (transactionSubmittedEventHandler rejectAll exampleCalldata False
          \<lparr>offchain = Some True, fromBlockProposer = Some True,
           data = exampleTransactionObject ''h''\<rparr> emptyDb)
     = Submitted (Some (TransactionError ''rejected'' 1)) \<and>
   transactions (snd (transactionSubmittedEventHandler rejectAll exampleCalldata False
          \<lparr>offchain = Some True, fromBlockProposer = Some True,
           data = exampleTransactionObject ''h''\<rparr> emptyDb)) (Str ''h'')
     = Some ((exampleTransactionObject ''h'')
               \<lparr>blockNumber := Str ''offchain'', transactionHashL1 := Str ''offchain''\<rparr>)"
  by (simp add: transactionSubmittedEventHandler_def submitTransaction_def
      checkAlreadyInBlock_def getBlockByTransactionHash_def emptyDb_def rejectAll_def
      exampleEvent_def exampleCalldata_def saveTransaction_def exampleTransactionObject_def)

text \<open>
  C5, amended. The order of persistence and validation depends on the flag
  \<^verbatim>\<open>fromBlockProposer\<close>, not on the origin. For a transaction that passes the replay
  check: with the flag, it is persisted before validation runs and stays recorded when
  validation rejects it; without the flag, it is validated first, persisted when validation
  succeeds and not persisted when validation rejects it. On the main thread the event
  handler passes the flag of the event on unchanged for on-chain and off-chain
  transactions alike.
\<close>

theorem persistence_by_flag:
  "(checkAlreadyInBlock db tx0 = Inr tx \<longrightarrow>
      submitTransaction chk tx0 True db = (chk tx (saveTransaction tx db), saveTransaction tx db) \<and>
      (chk tx db = None \<longrightarrow> submitTransaction chk tx0 False db = (None, saveTransaction tx db)) \<and>
      (chk tx db = Some e \<longrightarrow> submitTransaction chk tx0 False db = (Some e, db))) \<and>
   (offchain ev = Some True \<longrightarrow>
      transactionSubmittedEventHandler chk decode False ev db
        = (Submitted (fst (submitTransaction chk
               ((data ev)\<lparr>blockNumber := Str ''offchain'', transactionHashL1 := Str ''offchain''\<rparr>)
               (fromBlockProposer ev = Some True) db)),
           snd (submitTransaction chk
               ((data ev)\<lparr>blockNumber := Str ''offchain'', transactionHashL1 := Str ''offchain''\<rparr>)
               (fromBlockProposer ev = Some True) db))) \<and>
   (offchain ev \<noteq> Some True \<and> decode (data ev) = Some decoded \<longrightarrow>
      transactionSubmittedEventHandler chk decode False ev db
        = (Submitted (fst (submitTransaction chk
               (decoded\<lparr>blockNumber := blockNumber (data ev),
                         transactionHashL1 := transactionHash (data ev)\<rparr>)
               (fromBlockProposer ev = Some True) db)),
           snd (submitTransaction chk
               (decoded\<lparr>blockNumber := blockNumber (data ev),
                         transactionHashL1 := transactionHash (data ev)\<rparr>)
               (fromBlockProposer ev = Some True) db)))"
proof (intro conjI impI)
  assume passed: "checkAlreadyInBlock db tx0 = Inr tx"
  show "submitTransaction chk tx0 True db = (chk tx (saveTransaction tx db), saveTransaction tx db)"
    by (cases "chk tx (saveTransaction tx db)") (simp_all add: submitTransaction_def passed)
  show "submitTransaction chk tx0 False db = (None, saveTransaction tx db)" if "chk tx db = None"
    using that by (simp add: submitTransaction_def passed)
  show "submitTransaction chk tx0 False db = (Some e, db)" if "chk tx db = Some e"
    using that by (simp add: submitTransaction_def passed)
next
  assume "offchain ev = Some True"
  then show "transactionSubmittedEventHandler chk decode False ev db
        = (Submitted (fst (submitTransaction chk
               ((data ev)\<lparr>blockNumber := Str ''offchain'', transactionHashL1 := Str ''offchain''\<rparr>)
               (fromBlockProposer ev = Some True) db)),
           snd (submitTransaction chk
               ((data ev)\<lparr>blockNumber := Str ''offchain'', transactionHashL1 := Str ''offchain''\<rparr>)
               (fromBlockProposer ev = Some True) db))"
    by (simp add: transactionSubmittedEventHandler_def split: prod.splits)
next
  assume "offchain ev \<noteq> Some True \<and> decode (data ev) = Some decoded"
  then show "transactionSubmittedEventHandler chk decode False ev db
        = (Submitted (fst (submitTransaction chk
               (decoded\<lparr>blockNumber := blockNumber (data ev),
                         transactionHashL1 := transactionHash (data ev)\<rparr>)
               (fromBlockProposer ev = Some True) db)),
           snd (submitTransaction chk
               (decoded\<lparr>blockNumber := blockNumber (data ev),
                         transactionHashL1 := transactionHash (data ev)\<rparr>)
               (fromBlockProposer ev = Some True) db))"
    by (simp add: transactionSubmittedEventHandler_def split: prod.splits)
qed

theorem persistence_by_flag_witness:
  "checkAlreadyInBlock emptyDb (exampleTransactionObject ''h'') = Inr (exampleTransactionObject ''h'') \<and>
   submitTransaction rejectAll (exampleTransactionObject ''h'') True emptyDb
     = (Some (TransactionError ''rejected'' 1),
        saveTransaction (exampleTransactionObject ''h'') emptyDb) \<and>
   submitTransaction rejectAll (exampleTransactionObject ''h'') False emptyDb
     = (Some (TransactionError ''rejected'' 1), emptyDb) \<and>
   submitTransaction acceptAll (exampleTransactionObject ''h'') False emptyDb
     = (None, saveTransaction (exampleTransactionObject ''h'') emptyDb)"
proof -
  let ?tx = "exampleTransactionObject ''h''"
  have passed: "checkAlreadyInBlock emptyDb ?tx = Inr ?tx"
    by (simp add: checkAlreadyInBlock_def getBlockByTransactionHash_def emptyDb_def)
  note inst = persistence_by_flag [where db = emptyDb and tx0 = ?tx and tx = ?tx
      and e = "TransactionError ''rejected'' 1" and ev = exampleEvent
      and decode = exampleCalldata and decoded = ?tx]
  from inst [where chk = rejectAll] passed
  have "submitTransaction rejectAll ?tx True emptyDb
     = (Some (TransactionError ''rejected'' 1), saveTransaction ?tx emptyDb)"
    and "submitTransaction rejectAll ?tx False emptyDb
     = (Some (TransactionError ''rejected'' 1), emptyDb)"
    by (simp_all add: rejectAll_def)
  moreover from inst [where chk = acceptAll] passed
  have "submitTransaction acceptAll ?tx False emptyDb = (None, saveTransaction ?tx emptyDb)"
    by (simp add: acceptAll_def)
  ultimately show ?thesis
    using passed by simp
qed

section \<open>Properties of withdraw\<close>

text \<open>
  C7, the code at a failing input. \<^verbatim>\<open>getSiblingInfo\<close> throws after the commitment has
  been reserved; the call is outside the \<^verbatim>\<open>try\<close> block, so \<^verbatim>\<open>clearPending\<close> is not
  reached: the commitment stays pending and a second reservation with the same predicate
  finds nothing. When the failure is inside the \<^verbatim>\<open>try\<close> block (\<^verbatim>\<open>encodeABI\<close> throws)
  the commitment is released, and on success it is nullified with the hash of the spending
  transaction.
\<close>

theorem withdraw_leaves_commitment_pending:
  "withdraw (exampleServices\<lparr>getSiblingInfo := (\<lambda>c. None)\<rparr>) exampleWithdrawParams
     [exampleCommitment]
     = (Inl Thrown, [exampleCommitment\<lparr>status := Pending\<rparr>]) \<and>
   findUsableCommitmentsMutex (Str ''pkd'') (Str ''erc'') (Num 0) (Num 10) True
     [exampleCommitment\<lparr>status := Pending\<rparr>] = None \<and>
   findUsableCommitmentsMutex (Str ''pkd'') (Str ''erc'') (Num 0) (Num 10) True
     [exampleCommitment] = Some (exampleCommitment, [exampleCommitment\<lparr>status := Pending\<rparr>]) \<and>
   withdraw (exampleServices\<lparr>encodeABI := (\<lambda>t. None)\<rparr>) exampleWithdrawParams
     [exampleCommitment]
     = (Inl Thrown, [exampleCommitment]) \<and>
   withdraw exampleServices exampleWithdrawParams [exampleCommitment]
     = (Inr (Str ''raw'', exampleTransactionObject ''w''),
        [exampleCommitment\<lparr>status := Nullified (Str ''w'')\<rparr>])"
  by (simp add: withdraw_def findUsableCommitmentsMutex_def clearPending_def markNullified_def
      exampleServices_def exampleWithdrawParams_def exampleCommitment_def
      exampleTransactionObject_def)

end
